theory Spec2Isabelle
  imports Complex_Main
begin

section \<open>Feature maps of \<open>code_tab/feature.py\<close>\<close>

text \<open>
  The module defines an abstract class \<open>FeatureMap\<close> and two subclasses,
  \<open>MarginalCDFMap\<close> and \<open>RFFKGauss\<close>. Its methods work on two-dimensional numpy
  arrays of floats. Here an array is its shape together with its rows, and its entries
  are real numbers. Where a claim depends on overflow, \<open>RFFKGauss.gen_features\<close> is
  translated a second time with float64 entries, which can be infinite or NaN.
\<close>

subsection \<open>Two-dimensional arrays\<close>

record ndarray =
  shape :: "nat \<times> nat"
  rows :: "real list list"

text \<open>The shape is kept apart from the rows, since an array with no rows still has columns.\<close>

definition wf_ndarray :: "ndarray \<Rightarrow> bool" where
  "wf_ndarray A \<longleftrightarrow>
     length (rows A) = fst (shape A) \<and> list_all (\<lambda>r. length r = snd (shape A)) (rows A)"

text \<open>\<open>np.zeros((n, d))\<close>\<close>

definition zeros :: "nat \<Rightarrow> nat \<Rightarrow> ndarray" where
  "zeros n d = \<lparr>shape = (n, d), rows = replicate n (replicate d 0)\<rparr>"

text \<open>\<open>A[:, j]\<close>, read for \<open>j\<close> below the number of columns only.\<close>

definition column :: "ndarray \<Rightarrow> nat \<Rightarrow> real list" where
  "column A j = map (\<lambda>r. r ! j) (rows A)"

text \<open>\<open>Z[:, j] = v\<close>, written with a vector \<open>v\<close> that has one entry for each row.\<close>

definition set_column :: "ndarray \<Rightarrow> nat \<Rightarrow> real list \<Rightarrow> ndarray" where
  "set_column Z j v = Z\<lparr>rows := map2 (\<lambda>r x. r[j := x]) (rows Z) v\<rparr>"

subsection \<open>Ranks\<close>

text \<open>
  Modelled from the spec: \<open>scipy.stats.rankdata\<close>, a library function that is not part of
  the module. The values of a column are put in ascending order and numbered \<open>1, 2, ...\<close>;
  a value receives the mean of the ranks that the values tied with it occupy.
\<close>

definition ranks_occupied :: "real list \<Rightarrow> real \<Rightarrow> nat list" where
  "ranks_occupied a x =
     map fst (filter (\<lambda>(r, y). y = x) (zip [1..<Suc (length a)] (sort a)))"

definition mean :: "nat list \<Rightarrow> real" where
  "mean rs = real (sum_list rs) / real (length rs)"

definition rankdata :: "real list \<Rightarrow> real list" where
  "rankdata a = map (\<lambda>x. mean (ranks_occupied a x)) a"

subsection \<open>What a method call can reach\<close>

text \<open>
  A method call can read and write the process-wide generator of \<open>numpy.random\<close>, the
  attributes of the instance it is called on, and the array that it is given. A method is
  a function from this state to its result and the state it leaves behind.
\<close>

record ('g, 'a) pystate =
  np_random_state :: 'g
  self :: 'a
  X :: ndarray

datatype py_error = ValueError | ZeroDivisionError

subsection \<open>\<open>MarginalCDFMap\<close>\<close>

text \<open>The class has no attributes. The loop over \<open>range(d)\<close> is a fold over \<open>[0..<d]\<close>.\<close>

definition MarginalCDFMap_gen_features ::
  "('g, unit) pystate \<Rightarrow> ndarray \<times> ('g, unit) pystate" where
  "MarginalCDFMap_gen_features s =
     (let (n, d) = shape (X s);
          Z = zeros n d;
          Z = fold (\<lambda>j Z. set_column Z j (map (\<lambda>r. r / real n) (rankdata (column (X s) j))))
                [0..<d] Z
      in (Z, s))"

definition MarginalCDFMap_num_features :: "ndarray \<Rightarrow> nat" where
  "MarginalCDFMap_num_features A = snd (shape A)"

subsection \<open>Further array operations\<close>

text \<open>\<open>A.T\<close>\<close>

definition transpose_nd :: "ndarray \<Rightarrow> ndarray" where
  "transpose_nd A =
     \<lparr>shape = (snd (shape A), fst (shape A)), rows = map (column A) [0..<snd (shape A)]\<rparr>"

text \<open>\<open>A.dot(B)\<close>; numpy raises \<open>ValueError\<close> when the inner dimensions differ.\<close>

definition dot :: "ndarray \<Rightarrow> ndarray \<Rightarrow> py_error + ndarray" where
  "dot A B =
     (if snd (shape A) \<noteq> fst (shape B) then Inl ValueError
      else Inr \<lparr>shape = (fst (shape A), snd (shape B)),
                rows = map (\<lambda>a. map (\<lambda>k. sum_list (map2 (*) a (column B k))) [0..<snd (shape B)])
                         (rows A)\<rparr>)"

text \<open>An operation applied to every entry: \<open>np.cos(A)\<close>, \<open>np.sin(A)\<close>, \<open>A / c\<close>, \<open>A * c\<close>.\<close>

definition map_nd :: "(real \<Rightarrow> real) \<Rightarrow> ndarray \<Rightarrow> ndarray" where
  "map_nd f A = A\<lparr>rows := map (map f) (rows A)\<rparr>"

text \<open>\<open>np.hstack((A, B))\<close>; numpy raises \<open>ValueError\<close> when the numbers of rows differ.\<close>

definition hstack :: "ndarray \<Rightarrow> ndarray \<Rightarrow> py_error + ndarray" where
  "hstack A B =
     (if fst (shape A) \<noteq> fst (shape B) then Inl ValueError
      else Inr \<lparr>shape = (fst (shape A), snd (shape A) + snd (shape B)),
                rows = map2 (@) (rows A) (rows B)\<rparr>)"

text \<open>An exception raised by one step is the result of the steps after it.\<close>

definition bind_err :: "'e + 'a \<Rightarrow> ('a \<Rightarrow> 'e + 'b) \<Rightarrow> 'e + 'b" where
  "bind_err r f = (case r of Inl e \<Rightarrow> Inl e | Inr v \<Rightarrow> f v)"

subsection \<open>The generator of \<open>numpy.random\<close>\<close>

text \<open>
  The generator is a library object. Its two primitives are parameters of the model:
  \<open>np.random.seed\<close>, which sets the state from a seed, and the draw of one standard normal
  value, which returns the value and the next state.
\<close>

record 'g np_random =
  seed_state :: "int \<Rightarrow> 'g"
  standard_normal :: "'g \<Rightarrow> real \<times> 'g"

fun draw_normals :: "'g np_random \<Rightarrow> nat \<Rightarrow> 'g \<Rightarrow> real list \<times> 'g" where
  "draw_normals np 0 g = ([], g)"
| "draw_normals np (Suc k) g =
     (let (x, g1) = standard_normal np g;
          (xs, g2) = draw_normals np k g1
      in (x # xs, g2))"

text \<open>
  \<open>np.random.randn(k, d)\<close> fills a \<open>k \<times> d\<close> array row by row from the process-wide
  generator, and raises \<open>ValueError\<close> for a negative dimension before it draws.
\<close>

definition randn ::
  "'g np_random \<Rightarrow> int \<Rightarrow> nat \<Rightarrow> ('g, 'a) pystate \<Rightarrow> (py_error + ndarray) \<times> ('g, 'a) pystate" where
  "randn np k d s =
     (if k < 0 then (Inl ValueError, s)
      else (let (xs, g) = draw_normals np (nat k * d) (np_random_state s)
            in (Inr \<lparr>shape = (nat k, d), rows = map (\<lambda>i. take d (drop (i * d) xs)) [0..<nat k]\<rparr>,
                s\<lparr>np_random_state := g\<rparr>)))"

text \<open>
  Modelled from the spec: \<open>util.NumpySeedContext\<close>, a class of the repository that is not
  in the module. Entering the context saves the state of the process-wide generator and
  seeds the generator; leaving it, on return or on an exception, puts the saved state back.
\<close>

definition NumpySeedContext_enter ::
  "'g np_random \<Rightarrow> int \<Rightarrow> ('g, 'a) pystate \<Rightarrow> 'g \<times> ('g, 'a) pystate" where
  "NumpySeedContext_enter np sd s = (np_random_state s, s\<lparr>np_random_state := seed_state np sd\<rparr>)"

definition NumpySeedContext_exit :: "'g \<Rightarrow> ('g, 'a) pystate \<Rightarrow> ('g, 'a) pystate" where
  "NumpySeedContext_exit cur_state s = s\<lparr>np_random_state := cur_state\<rparr>"

subsection \<open>\<open>RFFKGauss\<close>\<close>

record RFFKGauss =
  sigma2 :: real
  n_features :: int
  seed :: int

text \<open>\<open>__init__\<close>: both checks raise \<open>ValueError\<close>; the attributes are set after them.\<close>

definition RFFKGauss_init :: "real \<Rightarrow> int \<Rightarrow> int \<Rightarrow> py_error + RFFKGauss" where
  "RFFKGauss_init s2 nf sd =
     (if s2 \<le> 0 then Inl ValueError
      else if \<not> (nf > 0 \<and> nf mod 2 = 0) then Inl ValueError
      else Inr \<lparr>sigma2 = s2, n_features = nf, seed = sd\<rparr>)"

text \<open>
  \<open>gen_features\<close>: the body of the \<open>with\<close> block runs between entering and leaving the
  context, and the context is left whether the body returns or raises. In the last line
  the left operand is evaluated first; \<open>2.0 / self.n_features\<close> raises
  \<open>ZeroDivisionError\<close> when \<open>n_features\<close> is \<open>0\<close>.
\<close>

definition RFFKGauss_gen_features ::
  "'g np_random \<Rightarrow> ('g, RFFKGauss) pystate \<Rightarrow> (py_error + ndarray) \<times> ('g, RFFKGauss) pystate" where
  "RFFKGauss_gen_features np s0 =
     (let (cur_state, s1) = NumpySeedContext_enter np (seed (self s0)) s0;
          (Z, s2) =
            (let (n, d) = shape (X s1);
                 draws = n_features (self s1) div 2;
                 (R, s) = randn np draws d s1
             in (bind_err R (\<lambda>R.
                   let W = map_nd (\<lambda>w. w / sqrt (sigma2 (self s))) R in
                   bind_err (dot (X s) (transpose_nd W)) (\<lambda>XWT.
                   let Z1 = map_nd cos XWT;
                       Z2 = map_nd sin XWT in
                   bind_err (hstack Z1 Z2) (\<lambda>H.
                   if n_features (self s) = 0 then Inl ZeroDivisionError
                   else Inr (map_nd (\<lambda>z. z * sqrt (2 / real_of_int (n_features (self s)))) H)))),
                 s));
          s3 = NumpySeedContext_exit cur_state s2
      in (Z, s3))"

text \<open>\<open>num_features\<close>: the argument is optional and is not read.\<close>

definition RFFKGauss_num_features :: "RFFKGauss \<Rightarrow> ndarray option \<Rightarrow> int" where
  "RFFKGauss_num_features m A = n_features m"

subsection \<open>\<open>FeatureMap\<close>\<close>

text \<open>
  \<open>__call__\<close> is defined once, in the abstract class, and calls the \<open>gen_features\<close> of
  the instance's own class, which is its first argument here.
\<close>

definition FeatureMap_call :: "('s \<Rightarrow> 'r) \<Rightarrow> 's \<Rightarrow> 'r" where
  "FeatureMap_call gen_features s = gen_features s"

definition MarginalCDFMap_call :: "('g, unit) pystate \<Rightarrow> ndarray \<times> ('g, unit) pystate" where
  "MarginalCDFMap_call = FeatureMap_call MarginalCDFMap_gen_features"

definition RFFKGauss_call ::
  "'g np_random \<Rightarrow> ('g, RFFKGauss) pystate \<Rightarrow> (py_error + ndarray) \<times> ('g, RFFKGauss) pystate" where
  "RFFKGauss_call np = FeatureMap_call (RFFKGauss_gen_features np)"

subsection \<open>The random Fourier features as the specification describes them\<close>

text \<open>The value with index \<open>k\<close> of the stream of normal draws that starts in state \<open>g\<close>.\<close>

fun nth_normal :: "'g np_random \<Rightarrow> 'g \<Rightarrow> nat \<Rightarrow> real" where
  "nth_normal np g 0 = fst (standard_normal np g)"
| "nth_normal np g (Suc k) = nth_normal np (snd (standard_normal np g)) k"

text \<open>
  \<open>W\<close> is the \<open>(n_features // 2) \<times> d\<close> matrix of the first draws of the seeded stream, row
  by row, each scaled by \<open>1 / sqrt(sigma2)\<close>; \<open>P = X W\<^sup>T\<close>; the result is
  \<open>[cos(P) | sin(P)]\<close> scaled by \<open>sqrt(2 / n_features)\<close>.
\<close>

definition spec_W :: "'g np_random \<Rightarrow> RFFKGauss \<Rightarrow> nat \<Rightarrow> nat \<Rightarrow> nat \<Rightarrow> real" where
  "spec_W np m d k j = nth_normal np (seed_state np (seed m)) (k * d + j) * (1 / sqrt (sigma2 m))"

definition spec_P :: "'g np_random \<Rightarrow> RFFKGauss \<Rightarrow> ndarray \<Rightarrow> nat \<Rightarrow> nat \<Rightarrow> real" where
  "spec_P np m A i k = (\<Sum>j\<leftarrow>[0..<snd (shape A)]. rows A ! i ! j * spec_W np m (snd (shape A)) k j)"

definition spec_rff :: "'g np_random \<Rightarrow> RFFKGauss \<Rightarrow> ndarray \<Rightarrow> ndarray" where
  "spec_rff np m A =
     (let draws = nat (n_features m div 2);
          c = sqrt (2 / real_of_int (n_features m))
      in \<lparr>shape = (fst (shape A), nat (n_features m)),
          rows = map (\<lambda>i. map (\<lambda>k. c * cos (spec_P np m A i k)) [0..<draws] @
                           map (\<lambda>k. c * sin (spec_P np m A i k)) [0..<draws])
                   [0..<fst (shape A)]\<rparr>)"

subsection \<open>float64 values\<close>

text \<open>
  The arrays of the program hold float64 values. Where overflow matters an entry is a
  finite value, an infinity or NaN. The result of an arithmetic operation is an infinity
  exactly when rounding to nearest makes it one, that is when the magnitude of its exact
  value reaches \<open>2 ^ 1024 - 2 ^ 970\<close>; a finite result is kept exact. Rounding of finite
  results, underflow and the sign of zero are not part of this model.
\<close>

datatype float64 = Finite real | PlusInf | MinusInf | NaN

text \<open>The largest finite float64, \<open>(2 ^ 53 - 1) \<times> 2 ^ 971\<close>.\<close>

definition max_float64 :: real where
  "max_float64 = (2 ^ 53 - 1) * 2 ^ 971"

text \<open>
  Halfway between the largest finite float64 and \<open>2 ^ 1024\<close>:
  \<open>2 ^ 1024 - 2 ^ 970 = (2 ^ 54 - 1) \<times> 2 ^ 970\<close>.
\<close>

definition overflow_threshold64 :: real where
  "overflow_threshold64 = (2 ^ 54 - 1) * 2 ^ 970"

definition fl :: "real \<Rightarrow> float64" where
  "fl r = (if overflow_threshold64 \<le> r then PlusInf
           else if r \<le> - overflow_threshold64 then MinusInf
           else Finite r)"

fun sign64 :: "float64 \<Rightarrow> real" where
  "sign64 (Finite a) = sgn a"
| "sign64 PlusInf = 1"
| "sign64 MinusInf = - 1"
| "sign64 NaN = 0"

text \<open>The infinity of a sign; a product of signs that is zero comes from \<open>0 \<times> inf\<close> or \<open>0 / 0\<close>.\<close>

definition inf_of_sign :: "real \<Rightarrow> float64" where
  "inf_of_sign t = (if 0 < t then PlusInf else if t < 0 then MinusInf else NaN)"

fun f64_add :: "float64 \<Rightarrow> float64 \<Rightarrow> float64" where
  "f64_add (Finite a) (Finite b) = fl (a + b)"
| "f64_add NaN y = NaN"
| "f64_add x NaN = NaN"
| "f64_add PlusInf MinusInf = NaN"
| "f64_add MinusInf PlusInf = NaN"
| "f64_add PlusInf y = PlusInf"
| "f64_add MinusInf y = MinusInf"
| "f64_add x PlusInf = PlusInf"
| "f64_add x MinusInf = MinusInf"

fun f64_mult :: "float64 \<Rightarrow> float64 \<Rightarrow> float64" where
  "f64_mult (Finite a) (Finite b) = fl (a * b)"
| "f64_mult NaN y = NaN"
| "f64_mult x NaN = NaN"
| "f64_mult x y = inf_of_sign (sign64 x * sign64 y)"

text \<open>numpy divides by zero without raising: the result is an infinity, or NaN for \<open>0 / 0\<close>.\<close>

fun f64_divide :: "float64 \<Rightarrow> float64 \<Rightarrow> float64" where
  "f64_divide (Finite a) (Finite b) = (if b = 0 then inf_of_sign (sgn a) else fl (a / b))"
| "f64_divide NaN y = NaN"
| "f64_divide x NaN = NaN"
| "f64_divide (Finite a) y = Finite 0"
| "f64_divide x (Finite b) = inf_of_sign (sign64 x * (if b < 0 then - 1 else 1))"
| "f64_divide x y = NaN"

fun f64_sqrt :: "float64 \<Rightarrow> float64" where
  "f64_sqrt (Finite a) = (if a < 0 then NaN else Finite (sqrt a))"
| "f64_sqrt PlusInf = PlusInf"
| "f64_sqrt MinusInf = NaN"
| "f64_sqrt NaN = NaN"

text \<open>The cosine and the sine of an infinity are NaN.\<close>

fun f64_cos :: "float64 \<Rightarrow> float64" where
  "f64_cos (Finite a) = Finite (cos a)"
| "f64_cos x = NaN"

fun f64_sin :: "float64 \<Rightarrow> float64" where
  "f64_sin (Finite a) = Finite (sin a)"
| "f64_sin x = NaN"

subsection \<open>Arrays of float64 values\<close>

record ndarray64 =
  shape64 :: "nat \<times> nat"
  rows64 :: "float64 list list"

definition wf_ndarray64 :: "ndarray64 \<Rightarrow> bool" where
  "wf_ndarray64 A \<longleftrightarrow>
     length (rows64 A) = fst (shape64 A) \<and> list_all (\<lambda>r. length r = snd (shape64 A)) (rows64 A)"

definition column64 :: "ndarray64 \<Rightarrow> nat \<Rightarrow> float64 list" where
  "column64 A j = map (\<lambda>r. r ! j) (rows64 A)"

definition transpose64 :: "ndarray64 \<Rightarrow> ndarray64" where
  "transpose64 A =
     \<lparr>shape64 = (snd (shape64 A), fst (shape64 A)),
      rows64 = map (column64 A) [0..<snd (shape64 A)]\<rparr>"

text \<open>The products of a row and a column are added from left to right, starting from zero.\<close>

definition dot64 :: "ndarray64 \<Rightarrow> ndarray64 \<Rightarrow> py_error + ndarray64" where
  "dot64 A B =
     (if snd (shape64 A) \<noteq> fst (shape64 B) then Inl ValueError
      else Inr \<lparr>shape64 = (fst (shape64 A), snd (shape64 B)),
                rows64 = map (\<lambda>a. map (\<lambda>k. foldl f64_add (Finite 0) (map2 f64_mult a (column64 B k)))
                                  [0..<snd (shape64 B)])
                           (rows64 A)\<rparr>)"

definition map64 :: "(float64 \<Rightarrow> float64) \<Rightarrow> ndarray64 \<Rightarrow> ndarray64" where
  "map64 f A = A\<lparr>rows64 := map (map f) (rows64 A)\<rparr>"

definition hstack64 :: "ndarray64 \<Rightarrow> ndarray64 \<Rightarrow> py_error + ndarray64" where
  "hstack64 A B =
     (if fst (shape64 A) \<noteq> fst (shape64 B) then Inl ValueError
      else Inr \<lparr>shape64 = (fst (shape64 A), snd (shape64 A) + snd (shape64 B)),
                rows64 = map2 (@) (rows64 A) (rows64 B)\<rparr>)"

subsection \<open>\<open>RFFKGauss.gen_features\<close> on float64 arrays\<close>

text \<open>
  The same method with float64 entries. Only the state of the process-wide generator is
  threaded through it; the instance and the array are its arguments. A draw of the
  generator is a finite float64.
\<close>

definition randn64 ::
  "'g np_random \<Rightarrow> int \<Rightarrow> nat \<Rightarrow> 'g \<Rightarrow> (py_error + ndarray64) \<times> 'g" where
  "randn64 np k d g =
     (if k < 0 then (Inl ValueError, g)
      else (let (xs, g') = draw_normals np (nat k * d) g
            in (Inr \<lparr>shape64 = (nat k, d),
                     rows64 = map (\<lambda>i. map Finite (take d (drop (i * d) xs))) [0..<nat k]\<rparr>,
                g')))"

text \<open>
  Modelled from the spec: \<open>util.NumpySeedContext\<close>, on the generator state alone: entering
  saves the state and seeds the generator, leaving puts the saved state back.
\<close>

definition NumpySeedContext_enter64 :: "'g np_random \<Rightarrow> int \<Rightarrow> 'g \<Rightarrow> 'g \<times> 'g" where
  "NumpySeedContext_enter64 np sd g = (g, seed_state np sd)"

definition NumpySeedContext_exit64 :: "'g \<Rightarrow> 'g \<Rightarrow> 'g" where
  "NumpySeedContext_exit64 cur_state g = cur_state"

text \<open>The first lines of the \<open>with\<close> block, up to the projection \<open>XWT = X.dot(W.T)\<close>.\<close>

definition RFFKGauss_XWT64 ::
  "'g np_random \<Rightarrow> RFFKGauss \<Rightarrow> ndarray64 \<Rightarrow> 'g \<Rightarrow> (py_error + ndarray64) \<times> 'g" where
  "RFFKGauss_XWT64 np m A g =
     (let (n, d) = shape64 A;
          draws = n_features m div 2;
          (R, g') = randn64 np draws d g
      in (bind_err R (\<lambda>R.
            let W = map64 (\<lambda>w. f64_divide w (f64_sqrt (Finite (sigma2 m)))) R
            in dot64 A (transpose64 W)),
          g'))"

definition RFFKGauss_gen_features64 ::
  "'g np_random \<Rightarrow> RFFKGauss \<Rightarrow> ndarray64 \<Rightarrow> 'g \<Rightarrow> (py_error + ndarray64) \<times> 'g" where
  "RFFKGauss_gen_features64 np m A g0 =
     (let (cur_state, g1) = NumpySeedContext_enter64 np (seed m) g0;
          (XWT, g2) = RFFKGauss_XWT64 np m A g1;
          Z = bind_err XWT (\<lambda>XWT.
                let Z1 = map64 f64_cos XWT;
                    Z2 = map64 f64_sin XWT in
                bind_err (hstack64 Z1 Z2) (\<lambda>H.
                if n_features m = 0 then Inl ZeroDivisionError
                else Inr (map64 (\<lambda>z. f64_mult z (f64_sqrt (fl (2 / real_of_int (n_features m))))) H)));
          g3 = NumpySeedContext_exit64 cur_state g2
      in (Z, g3))"

text \<open>What is said of the entries of a result: that all are finite, that all are bounded.\<close>

fun finite64 :: "float64 \<Rightarrow> bool" where
  "finite64 (Finite a) = True"
| "finite64 x = False"

fun abs_le64 :: "real \<Rightarrow> float64 \<Rightarrow> bool" where
  "abs_le64 b (Finite a) = (\<bar>a\<bar> \<le> b)"
| "abs_le64 b x = False"

definition entries_finite64 :: "py_error + ndarray64 \<Rightarrow> bool" where
  "entries_finite64 r =
     (case r of Inl e \<Rightarrow> False | Inr Z \<Rightarrow> list_all (list_all finite64) (rows64 Z))"

definition entries_bounded64 :: "real \<Rightarrow> py_error + ndarray64 \<Rightarrow> bool" where
  "entries_bounded64 b r =
     (case r of Inl e \<Rightarrow> False | Inr Z \<Rightarrow> list_all (list_all (abs_le64 b)) (rows64 Z))"

subsection \<open>Concrete inputs\<close>

text \<open>A generator whose state is a counter: seeding sets the counter, a draw returns it.\<close>

definition counter_np :: "nat np_random" where
  "counter_np = \<lparr>seed_state = (\<lambda>i. nat i), standard_normal = (\<lambda>g. (real g, Suc g))\<rparr>"

definition column_112 :: ndarray where
  "column_112 = \<lparr>shape = (3, 1), rows = [[1], [1], [2]]\<rparr>"

definition column_11 :: ndarray where
  "column_11 = \<lparr>shape = (2, 1), rows = [[1], [1]]\<rparr>"

definition rff_1_4 :: RFFKGauss where
  "rff_1_4 = \<lparr>sigma2 = 1, n_features = 4, seed = 1\<rparr>"

definition rff_4_4 :: RFFKGauss where
  "rff_4_4 = \<lparr>sigma2 = 4, n_features = 4, seed = 1\<rparr>"

text \<open>
  The column \<open>[1, 1, 2]\<close> as float64 values, and an instance and a \<open>1 \<times> 1\<close> array made
  of powers of two, so that the values up to the projection are exact in float64.
\<close>

definition column_112_f64 :: ndarray64 where
  "column_112_f64 = \<lparr>shape64 = (3, 1), rows64 = [[Finite 1], [Finite 1], [Finite 2]]\<rparr>"

definition large_1_1 :: ndarray64 where
  "large_1_1 = \<lparr>shape64 = (1, 1), rows64 = [[Finite (2 ^ 1000)]]\<rparr>"

definition rff_small_sigma2 :: RFFKGauss where
  "rff_small_sigma2 = \<lparr>sigma2 = 1 / 2 ^ 1000, n_features = 2, seed = 1\<rparr>"

section \<open>Properties\<close>

subsection \<open>The state after a call\<close>

lemma RFFKGauss_gen_features_state: "snd (RFFKGauss_gen_features np s) = s"
  by (simp add: RFFKGauss_gen_features_def NumpySeedContext_enter_def NumpySeedContext_exit_def
      randn_def Let_def split: prod.splits)

lemma RFFKGauss_gen_features_ambient:
  "fst (RFFKGauss_gen_features np (s\<lparr>np_random_state := g\<rparr>)) = fst (RFFKGauss_gen_features np s)"
  by (simp add: RFFKGauss_gen_features_def NumpySeedContext_enter_def NumpySeedContext_exit_def
      randn_def Let_def split: prod.splits)

lemma RFFKGauss_gen_features_cong:
  assumes "self s1 = self s2" and "X s1 = X s2"
  shows "fst (RFFKGauss_gen_features np s1) = fst (RFFKGauss_gen_features np s2)"
proof -
  have "s1 = s2\<lparr>np_random_state := np_random_state s1\<rparr>"
    using assms by simp
  then show ?thesis
    using RFFKGauss_gen_features_ambient by metis
qed

lemma MarginalCDFMap_gen_features_state: "snd (MarginalCDFMap_gen_features s) = s"
  by (simp add: MarginalCDFMap_gen_features_def Let_def split: prod.splits)

lemma MarginalCDFMap_gen_features_cong:
  "X s1 = X s2 \<Longrightarrow> fst (MarginalCDFMap_gen_features s1) = fst (MarginalCDFMap_gen_features s2)"
  by (simp add: MarginalCDFMap_gen_features_def Let_def split: prod.splits)

text \<open>
  Claim C1. \<open>gen_features\<close> is deterministic. For \<open>MarginalCDFMap\<close> the result is the same
  in any two states that hold the same array, and a second call on the state left by the
  first returns what the first returned. For \<open>RFFKGauss\<close> the result is the same in any
  two states whose instances have the same \<open>sigma2\<close>, \<open>n_features\<close> and \<open>seed\<close> and that
  hold the same array, whatever the state of the process-wide generator in either; and a
  second call returns what the first returned.
\<close>

theorem gen_features_deterministic:
  fixes c1 c2 :: "('h, unit) pystate" and r1 r2 :: "('g, RFFKGauss) pystate"
  shows "(X c1 = X c2 \<longrightarrow>
            fst (MarginalCDFMap_gen_features c1) = fst (MarginalCDFMap_gen_features c2))
       \<and> fst (MarginalCDFMap_gen_features (snd (MarginalCDFMap_gen_features c1)))
           = fst (MarginalCDFMap_gen_features c1)
       \<and> (sigma2 (self r1) = sigma2 (self r2) \<and> n_features (self r1) = n_features (self r2)
            \<and> seed (self r1) = seed (self r2) \<and> X r1 = X r2 \<longrightarrow>
            fst (RFFKGauss_gen_features np r1) = fst (RFFKGauss_gen_features np r2))
       \<and> fst (RFFKGauss_gen_features np (snd (RFFKGauss_gen_features np r1)))
           = fst (RFFKGauss_gen_features np r1)"
proof -
  have "self r1 = self r2"
    if "sigma2 (self r1) = sigma2 (self r2)" "n_features (self r1) = n_features (self r2)"
       "seed (self r1) = seed (self r2)"
    using that by simp
  then show ?thesis
    by (auto simp: MarginalCDFMap_gen_features_state RFFKGauss_gen_features_state
        intro: MarginalCDFMap_gen_features_cong RFFKGauss_gen_features_cong)
qed

theorem gen_features_deterministic_witness:
  "X \<lparr>np_random_state = 0::nat, self = (), X = column_112\<rparr>
     = X \<lparr>np_random_state = 5::nat, self = (), X = column_112\<rparr>
   \<and> fst (MarginalCDFMap_gen_features \<lparr>np_random_state = 0::nat, self = (), X = column_112\<rparr>)
     = fst (MarginalCDFMap_gen_features \<lparr>np_random_state = 5::nat, self = (), X = column_112\<rparr>)
   \<and> fst (RFFKGauss_gen_features counter_np \<lparr>np_random_state = 0, self = rff_1_4, X = column_112\<rparr>)
     = fst (RFFKGauss_gen_features counter_np
              \<lparr>np_random_state = 5, self = \<lparr>sigma2 = 1, n_features = 4, seed = 1\<rparr>, X = column_112\<rparr>)"
  using gen_features_deterministic
    [of "\<lparr>np_random_state = 0::nat, self = (), X = column_112\<rparr>"
        "\<lparr>np_random_state = 5::nat, self = (), X = column_112\<rparr>"
        "\<lparr>np_random_state = 0, self = rff_1_4, X = column_112\<rparr>"
        "\<lparr>np_random_state = 5, self = \<lparr>sigma2 = 1, n_features = 4, seed = 1\<rparr>, X = column_112\<rparr>"
        counter_np]
  by (simp add: rff_1_4_def)

subsection \<open>The constructor of \<open>RFFKGauss\<close>\<close>

text \<open>
  Claim C5. The constructor raises exactly when \<open>sigma2 \<le> 0\<close> or \<open>n_features\<close> is not a
  positive even integer, and the error is a \<open>ValueError\<close>; it returns either the error or
  the instance, never both. It fails for \<open>sigma2 = 0\<close> and for \<open>n_features = 3\<close>, and
  succeeds for \<open>sigma2 = 1.0\<close> and \<open>n_features = 4\<close>.
\<close>

theorem RFFKGauss_init_raises_iff:
  "((\<exists>e. RFFKGauss_init s2 nf sd = Inl e) \<longleftrightarrow> s2 \<le> 0 \<or> \<not> (0 < nf \<and> even nf))
   \<and> ((\<exists>e. RFFKGauss_init s2 nf sd = Inl e) \<longleftrightarrow> RFFKGauss_init s2 nf sd = Inl ValueError)
   \<and> ((\<exists>m. RFFKGauss_init s2 nf sd = Inr m) \<longleftrightarrow> \<not> (\<exists>e. RFFKGauss_init s2 nf sd = Inl e))
   \<and> ((\<exists>m. RFFKGauss_init s2 nf sd = Inr m) \<longleftrightarrow>
        RFFKGauss_init s2 nf sd = Inr \<lparr>sigma2 = s2, n_features = nf, seed = sd\<rparr>)
   \<and> RFFKGauss_init 0 nf sd = Inl ValueError
   \<and> RFFKGauss_init s2 3 sd = Inl ValueError
   \<and> RFFKGauss_init 1 4 sd = Inr \<lparr>sigma2 = 1, n_features = 4, seed = sd\<rparr>"
  by (auto simp: RFFKGauss_init_def)

theorem RFFKGauss_init_raises_iff_witness:
  "(\<exists>m. RFFKGauss_init 2 6 1 = Inr m) \<and> \<not> (\<exists>e. RFFKGauss_init 2 6 1 = Inl e)
   \<and> \<not> (2 \<le> (0::real) \<or> \<not> (0 < (6::int) \<and> even (6::int)))
   \<and> (\<exists>e. RFFKGauss_init (- 1) 6 1 = Inl e) \<and> (\<exists>e. RFFKGauss_init 2 5 1 = Inl e)
   \<and> (\<exists>e. RFFKGauss_init 2 (- 4) 1 = Inl e)"
  using RFFKGauss_init_raises_iff [of 2 6 1] RFFKGauss_init_raises_iff [of "- 1" 6 1]
    RFFKGauss_init_raises_iff [of 2 5 1] RFFKGauss_init_raises_iff [of 2 "- 4" 1]
  by simp

subsection \<open>The process-wide generator, the instance and the array\<close>

text \<open>
  Claim C7. \<open>RFFKGauss.gen_features\<close> changes nothing but its return value: after the call
  the array, the attributes of the instance and the state of the process-wide generator
  are what they were before it, whether the call returned an array or raised, so that
  the values drawn from the generator after the call are those that would have been drawn
  without it.
\<close>

theorem RFFKGauss_gen_features_frame:
  "X (snd (RFFKGauss_gen_features np s)) = X s
   \<and> self (snd (RFFKGauss_gen_features np s)) = self s
   \<and> np_random_state (snd (RFFKGauss_gen_features np s)) = np_random_state s
   \<and> snd (RFFKGauss_gen_features np s) = s
   \<and> draw_normals np k (np_random_state (snd (RFFKGauss_gen_features np s)))
       = draw_normals np k (np_random_state s)"
  by (simp add: RFFKGauss_gen_features_state)

text \<open>The exit by an exception: an instance whose \<open>n_features\<close> was set to \<open>-2\<close> raises.\<close>

theorem RFFKGauss_gen_features_frame_witness:
  "fst (RFFKGauss_gen_features counter_np
          \<lparr>np_random_state = 7, self = \<lparr>sigma2 = 1, n_features = - 2, seed = 1\<rparr>, X = column_112\<rparr>)
     = Inl ValueError
   \<and> snd (RFFKGauss_gen_features counter_np
          \<lparr>np_random_state = 7, self = \<lparr>sigma2 = 1, n_features = - 2, seed = 1\<rparr>, X = column_112\<rparr>)
     = \<lparr>np_random_state = 7, self = \<lparr>sigma2 = 1, n_features = - 2, seed = 1\<rparr>, X = column_112\<rparr>
   \<and> snd (RFFKGauss_gen_features counter_np \<lparr>np_random_state = 7, self = rff_1_4, X = column_112\<rparr>)
     = \<lparr>np_random_state = 7, self = rff_1_4, X = column_112\<rparr>"
proof -
  have "fst (RFFKGauss_gen_features counter_np
          \<lparr>np_random_state = 7, self = \<lparr>sigma2 = 1, n_features = - 2, seed = 1\<rparr>, X = column_112\<rparr>)
     = Inl ValueError"
    by (simp add: RFFKGauss_gen_features_def NumpySeedContext_enter_def NumpySeedContext_exit_def
        randn_def bind_err_def column_112_def)
  then show ?thesis
    using RFFKGauss_gen_features_frame
      [of counter_np
        "\<lparr>np_random_state = 7, self = \<lparr>sigma2 = 1, n_features = - 2, seed = 1\<rparr>, X = column_112\<rparr>"]
      RFFKGauss_gen_features_frame
      [of counter_np "\<lparr>np_random_state = 7, self = rff_1_4, X = column_112\<rparr>"]
    by simp
qed

subsection \<open>The number of features of \<open>RFFKGauss\<close>\<close>

text \<open>
  Claim C8. \<open>RFFKGauss.num_features\<close> returns the attribute \<open>n_features\<close>, with an
  argument or without one; for an instance that the constructor returned this is the
  \<open>n_features\<close> given to the constructor, so \<open>RFFKGauss(sigma2=1.0, n_features=4)\<close>
  reports \<open>4\<close>.
\<close>

theorem RFFKGauss_num_features_configured:
  "RFFKGauss_num_features m None = n_features m
   \<and> RFFKGauss_num_features m (Some A) = n_features m
   \<and> (RFFKGauss_init s2 nf sd = Inr m \<longrightarrow>
        RFFKGauss_num_features m None = nf \<and> RFFKGauss_num_features m (Some A) = nf)"
  by (auto simp: RFFKGauss_num_features_def RFFKGauss_init_def split: if_splits)

theorem RFFKGauss_num_features_configured_witness:
  "RFFKGauss_init 1 4 1 = Inr rff_1_4
   \<and> RFFKGauss_num_features rff_1_4 None = 4
   \<and> RFFKGauss_num_features rff_1_4 (Some column_112) = 4"
proof -
  have h: "RFFKGauss_init 1 4 1 = Inr rff_1_4"
    by (simp add: RFFKGauss_init_def rff_1_4_def)
  show ?thesis
    using h RFFKGauss_num_features_configured [of rff_1_4 column_112 1 4 1] by simp
qed

subsection \<open>Calling a feature map\<close>

text \<open>
  Claim C9. Calling a feature map is calling its \<open>gen_features\<close>: for every implementation
  of \<open>gen_features\<close>, and so for both classes of the module, the call returns the same
  result and leaves the same state.
\<close>

theorem FeatureMap_call_is_gen_features:
  "FeatureMap_call gen s = gen s
   \<and> MarginalCDFMap_call c = MarginalCDFMap_gen_features c
   \<and> RFFKGauss_call np r = RFFKGauss_gen_features np r"
  by (simp add: FeatureMap_call_def MarginalCDFMap_call_def RFFKGauss_call_def)

subsection \<open>The loop of \<open>MarginalCDFMap.gen_features\<close>\<close>

lemma length_rankdata: "length (rankdata a) = length a"
  by (simp add: rankdata_def)

lemma length_column: "length (column A j) = length (rows A)"
  by (simp add: column_def)

lemma zeros_rows: "zeros n d = \<lparr>shape = (n, d), rows = map (\<lambda>i. map (\<lambda>j. 0) [0..<d]) [0..<n]\<rparr>"
  by (simp add: zeros_def map_replicate_const)

lemma fold_set_column:
  assumes "\<forall>j<d. length (v j) = n" and "k \<le> d"
  shows "fold (\<lambda>j Z. set_column Z j (v j)) [0..<k] (zeros n d)
       = \<lparr>shape = (n, d),
          rows = map (\<lambda>i. map (\<lambda>j. if j < k then v j ! i else 0) [0..<d]) [0..<n]\<rparr>"
  using assms(2)
proof (induction k)
  case 0
  then show ?case by (simp add: zeros_rows)
next
  case (Suc k)
  then have len: "length (v k) = n" and kd: "k < d" using assms(1) by auto
  have "map2 (\<lambda>r x. r[k := x]) (map (\<lambda>i. map (\<lambda>j. if j < k then v j ! i else 0) [0..<d]) [0..<n]) (v k)
      = map (\<lambda>i. map (\<lambda>j. if j < Suc k then v j ! i else 0) [0..<d]) [0..<n]"
    using len kd
    by (intro nth_equalityI) (auto simp: nth_list_update less_Suc_eq)
  then show ?case
    using Suc by (simp add: set_column_def)
qed

lemma MarginalCDFMap_gen_features_rows:
  assumes "wf_ndarray (X s)" and "shape (X s) = (n, d)"
  shows "fst (MarginalCDFMap_gen_features s)
       = \<lparr>shape = (n, d),
          rows = map (\<lambda>i. map (\<lambda>j. rankdata (column (X s) j) ! i / real n) [0..<d]) [0..<n]\<rparr>"
proof -
  have n: "length (rows (X s)) = n"
    using assms by (simp add: wf_ndarray_def)
  have "fold (\<lambda>j Z. set_column Z j (map (\<lambda>r. r / real n) (rankdata (column (X s) j)))) [0..<d] (zeros n d)
      = \<lparr>shape = (n, d),
         rows = map (\<lambda>i. map (\<lambda>j. if j < d then map (\<lambda>r. r / real n) (rankdata (column (X s) j)) ! i else 0) [0..<d]) [0..<n]\<rparr>"
    by (rule fold_set_column) (simp_all add: length_rankdata length_column n)
  also have "\<dots> = \<lparr>shape = (n, d),
          rows = map (\<lambda>i. map (\<lambda>j. rankdata (column (X s) j) ! i / real n) [0..<d]) [0..<n]\<rparr>"
    by (simp add: length_rankdata length_column n)
  finally show ?thesis
    using assms(2) by (simp add: MarginalCDFMap_gen_features_def)
qed

lemma MarginalCDFMap_gen_features_column:
  assumes "wf_ndarray (X s)" and "shape (X s) = (n, d)" and "j < d"
  shows "column (fst (MarginalCDFMap_gen_features s)) j
       = map (\<lambda>r. r / real n) (rankdata (column (X s) j))"
proof -
  have n: "length (rows (X s)) = n"
    using assms by (simp add: wf_ndarray_def)
  show ?thesis
    using assms(3)
    by (intro nth_equalityI)
       (simp_all add: MarginalCDFMap_gen_features_rows [OF assms(1,2)] column_def
          length_rankdata n o_def)
qed

subsection \<open>Average ranks\<close>

text \<open>
  In the sorted column the values below \<open>x\<close> come first and the values equal to \<open>x\<close>
  next, so the ranks that the values tied with \<open>x\<close> occupy are consecutive.
\<close>

lemma sorted_positions:
  fixes s :: "real list"
  assumes "sorted s"
  shows "map fst (filter (\<lambda>(r, y). y = x) (zip [m..<m + length s] s))
       = [m + length (filter (\<lambda>y. y < x) s)
            ..<m + length (filter (\<lambda>y. y < x) s) + length (filter (\<lambda>y. y = x) s)]"
  using assms
proof (induction s arbitrary: m)
  case Nil
  then show ?case by simp
next
  case (Cons y ys)
  have up: "[m..<m + length (y # ys)] = m # [Suc m..<Suc m + length ys]"
    using upt_conv_Cons [of m "m + length (y # ys)"] by (simp del: upt_Suc)
  have "sorted ys"
    using Cons.prems by simp
  then have ih: "map fst (filter (\<lambda>(r, y). y = x) (zip [Suc m..<Suc m + length ys] ys))
       = [Suc m + length (filter (\<lambda>y. y < x) ys)
            ..<Suc m + length (filter (\<lambda>y. y < x) ys) + length (filter (\<lambda>y. y = x) ys)]"
    by (rule Cons.IH)
  have ge: "\<forall>z\<in>set ys. y \<le> z"
    using Cons.prems by simp
  show ?case
  proof (cases "y < x")
    case True
    then show ?thesis
      unfolding up using ih by (simp del: upt_Suc)
  next
    case False
    then have none_less: "filter (\<lambda>y. y < x) ys = []"
      using ge by (auto simp: filter_empty_conv)
    show ?thesis
    proof (cases "y = x")
      case True
      then show ?thesis
        unfolding up using ih none_less
          upt_conv_Cons [of m "m + length (filter (\<lambda>y. y = x) (y # ys))"]
        by (simp del: upt_Suc)
    next
      case False
      with \<open>\<not> y < x\<close> have "x < y" by simp
      then have "filter (\<lambda>y. y = x) ys = []"
        using ge by (auto simp: filter_empty_conv)
      then show ?thesis
        unfolding up using ih none_less \<open>x < y\<close> by (simp del: upt_Suc)
    qed
  qed
qed

lemma ranks_occupied_interval:
  "ranks_occupied a x
     = [Suc (length (filter (\<lambda>y. y < x) a))
          ..<Suc (length (filter (\<lambda>y. y < x) a)) + length (filter (\<lambda>y. y = x) a)]"
proof -
  have "[1..<Suc (length a)] = [1..<1 + length (sort a)]" by simp
  then have "ranks_occupied a x
     = [1 + length (filter (\<lambda>y. y < x) (sort a))
          ..<1 + length (filter (\<lambda>y. y < x) (sort a)) + length (filter (\<lambda>y. y = x) (sort a))]"
    unfolding ranks_occupied_def using sorted_positions [of "sort a" x 1] by (simp del: upt_Suc)
  then show ?thesis
    by (simp add: filter_sort)
qed

lemma sum_list_upt_real: "real (sum_list [a..<a + k]) = real k * real a + real k * (real k - 1) / 2"
proof (induction k)
  case 0
  then show ?case by simp
next
  case (Suc k)
  then show ?case by (simp add: field_simps)
qed

lemma mean_interval:
  "0 < k \<Longrightarrow> mean [Suc lo..<Suc lo + k] = real lo + (real k + 1) / 2"
  using sum_list_upt_real [of "Suc lo" k]
  by (simp add: mean_def field_simps)

lemma rankdata_nth:
  assumes "i < length a"
  shows "rankdata a ! i
       = real (length (filter (\<lambda>y. y < a ! i) a)) + (real (length (filter (\<lambda>y. y = a ! i) a)) + 1) / 2"
proof -
  have "a ! i \<in> set (filter (\<lambda>y. y = a ! i) a)"
    using assms by simp
  then have "0 < length (filter (\<lambda>y. y = a ! i) a)"
    by (metis length_pos_if_in_set)
  then have "mean [Suc (length (filter (\<lambda>y. y < a ! i) a))
                 ..<Suc (length (filter (\<lambda>y. y < a ! i) a)) + length (filter (\<lambda>y. y = a ! i) a)]
     = real (length (filter (\<lambda>y. y < a ! i) a)) + (real (length (filter (\<lambda>y. y = a ! i) a)) + 1) / 2"
    by (rule mean_interval)
  moreover have "rankdata a ! i = mean (ranks_occupied a (a ! i))"
    using assms by (simp add: rankdata_def)
  ultimately show ?thesis
    by (simp only: ranks_occupied_interval)
qed

lemma count_less_equal_le:
  fixes a :: "real list"
  shows "length (filter (\<lambda>y. y < x) a) + length (filter (\<lambda>y. y = x) a) \<le> length a"
  by (induction a) auto

lemma count_below_top:
  fixes a :: "real list"
  assumes "\<forall>y\<in>set a. y \<le> t"
  shows "length (filter (\<lambda>y. y < t) a) + length (filter (\<lambda>y. y = t) a) = length a"
  using assms by (induction a) auto

lemma count_less_mono:
  fixes a :: "real list"
  assumes "x < t"
  shows "length (filter (\<lambda>y. y < x) a) + length (filter (\<lambda>y. y = x) a)
           \<le> length (filter (\<lambda>y. y < t) a)"
  using assms by (induction a) auto

lemma count_self_pos: "i < length a \<Longrightarrow> 0 < length (filter (\<lambda>y. y = a ! i) a)"
proof -
  assume "i < length a"
  then have "a ! i \<in> set (filter (\<lambda>y. y = a ! i) a)" by simp
  then show ?thesis by (metis length_pos_if_in_set)
qed

lemma rankdata_bounds:
  assumes "i < length a"
  shows "1 \<le> rankdata a ! i" and "rankdata a ! i \<le> real (length a)"
proof -
  let ?lo = "length (filter (\<lambda>y. y < a ! i) a)" and ?k = "length (filter (\<lambda>y. y = a ! i) a)"
  have r: "rankdata a ! i = real ?lo + (real ?k + 1) / 2"
    using assms by (rule rankdata_nth)
  have k: "1 \<le> real ?k"
    using count_self_pos [OF assms] by (simp add: Suc_le_eq)
  have le: "real ?lo + real ?k \<le> real (length a)"
    using count_less_equal_le [of "a ! i" a] by (metis of_nat_add of_nat_le_iff)
  have lo: "0 \<le> real ?lo" by simp
  show "1 \<le> rankdata a ! i"
    unfolding r using k lo by argo
  show "rankdata a ! i \<le> real (length a)"
    unfolding r using k le by argo
qed

lemma rankdata_top:
  assumes "i < length a" and "a ! i = Max (set a)"
  shows "rankdata a ! i
       = real (length a) - (real (length (filter (\<lambda>y. y = Max (set a)) a)) - 1) / 2"
proof -
  let ?t = "Max (set a)"
  have "\<forall>y\<in>set a. y \<le> ?t" by simp
  then have "length (filter (\<lambda>y. y < ?t) a) + length (filter (\<lambda>y. y = ?t) a) = length a"
    by (rule count_below_top)
  then have "real (length (filter (\<lambda>y. y < ?t) a)) + real (length (filter (\<lambda>y. y = ?t) a))
           = real (length a)"
    by (metis of_nat_add)
  then show ?thesis
    using rankdata_nth [OF assms(1)] assms(2) by (simp add: field_simps)
qed

lemma rankdata_le_top:
  assumes "i < length a"
  shows "rankdata a ! i
       \<le> real (length a) - (real (length (filter (\<lambda>y. y = Max (set a)) a)) - 1) / 2"
proof (cases "a ! i = Max (set a)")
  case True
  then show ?thesis using rankdata_top [OF assms] by simp
next
  case False
  let ?t = "Max (set a)"
  let ?lo = "length (filter (\<lambda>y. y < a ! i) a)" and ?k = "length (filter (\<lambda>y. y = a ! i) a)"
  have "a ! i \<le> ?t" using assms by simp
  with False have lt: "a ! i < ?t" by simp
  have "?lo + ?k \<le> length (filter (\<lambda>y. y < ?t) a)"
    using lt by (rule count_less_mono)
  moreover have "length (filter (\<lambda>y. y < ?t) a) + length (filter (\<lambda>y. y = ?t) a) = length a"
    by (rule count_below_top) simp
  ultimately have "?lo + ?k + length (filter (\<lambda>y. y = ?t) a) \<le> length a"
    by linarith
  then have "real ?lo + real ?k + real (length (filter (\<lambda>y. y = ?t) a)) \<le> real (length a)"
    by (metis of_nat_add of_nat_le_iff)
  moreover have "1 \<le> real ?k"
    using count_self_pos [OF assms] by (simp add: Suc_le_eq)
  moreover have "rankdata a ! i = real ?lo + (real ?k + 1) / 2"
    using assms by (rule rankdata_nth)
  moreover have "0 \<le> real (length (filter (\<lambda>y. y = ?t) a))" by simp
  ultimately show ?thesis by argo
qed

lemma Max_scaled_rankdata:
  assumes "a \<noteq> []" and "0 < c"
  shows "Max (set (map (\<lambda>r. r / c) (rankdata a)))
       = (real (length a) - (real (length (filter (\<lambda>y. y = Max (set a)) a)) - 1) / 2) / c"
proof (rule Max_eqI)
  show "finite (set (map (\<lambda>r. r / c) (rankdata a)))" by simp
next
  fix z
  assume "z \<in> set (map (\<lambda>r. r / c) (rankdata a))"
  then obtain i where "i < length a" and "z = rankdata a ! i / c"
    by (auto simp: in_set_conv_nth length_rankdata)
  then show "z \<le> (real (length a) - (real (length (filter (\<lambda>y. y = Max (set a)) a)) - 1) / 2) / c"
    using rankdata_le_top [of i a] assms(2) by (simp add: divide_right_mono)
next
  have "Max (set a) \<in> set a"
    using assms(1) by simp
  then obtain i where i: "i < length a" "a ! i = Max (set a)"
    by (auto simp: in_set_conv_nth)
  then have "rankdata a ! i / c \<in> set (map (\<lambda>r. r / c) (rankdata a))"
    by (auto simp: length_rankdata intro!: imageI nth_mem)
  then show "(real (length a) - (real (length (filter (\<lambda>y. y = Max (set a)) a)) - 1) / 2) / c
           \<in> set (map (\<lambda>r. r / c) (rankdata a))"
    using rankdata_top [OF i] by simp
qed

subsection \<open>Two columns with ties\<close>

lemma MarginalCDFMap_column_112:
  "fst (MarginalCDFMap_gen_features \<lparr>np_random_state = g, self = (), X = column_112\<rparr>)
     = \<lparr>shape = (3, 1), rows = [[1 / 2], [1 / 2], [1]]\<rparr>"
  by (simp add: MarginalCDFMap_gen_features_def column_112_def zeros_def set_column_def
      column_def rankdata_def ranks_occupied_def mean_def eval_nat_numeral)

lemma MarginalCDFMap_column_11:
  "fst (MarginalCDFMap_gen_features \<lparr>np_random_state = g, self = (), X = column_11\<rparr>)
     = \<lparr>shape = (2, 1), rows = [[3 / 4], [3 / 4]]\<rparr>"
  by (simp add: MarginalCDFMap_gen_features_def column_11_def zeros_def set_column_def
      column_def rankdata_def ranks_occupied_def mean_def eval_nat_numeral)

subsection \<open>Columns of \<open>MarginalCDFMap.gen_features\<close>\<close>

text \<open>
  Claim C3. For an \<open>n \<times> d\<close> array, column \<open>j\<close> of the result of
  \<open>MarginalCDFMap.gen_features\<close> holds, for each entry of column \<open>j\<close> of the input, the
  mean of the ranks that the entries tied with it occupy, divided by \<open>n\<close>: the number of
  smaller entries plus half of the number of tied entries plus one, divided by \<open>n\<close>. It is
  determined by column \<open>j\<close> of the input alone. For the column \<open>[1, 1, 2]\<close> the result is
  \<open>[0.5, 0.5, 1.0]\<close>.
\<close>

theorem MarginalCDFMap_gen_features_average_rank:
  fixes s s' :: "('g, unit) pystate"
  assumes "wf_ndarray (X s)" and "shape (X s) = (n, d)" and "j < d"
  shows "column (fst (MarginalCDFMap_gen_features s)) j
           = map (\<lambda>x. mean (ranks_occupied (column (X s) j) x) / real n) (column (X s) j)
       \<and> (\<forall>i<n. column (fst (MarginalCDFMap_gen_features s)) j ! i
             = (real (length (filter (\<lambda>y. y < column (X s) j ! i) (column (X s) j)))
                + (real (length (filter (\<lambda>y. y = column (X s) j ! i) (column (X s) j))) + 1) / 2)
               / real n)
       \<and> (wf_ndarray (X s') \<and> shape (X s') = (n, d) \<and> column (X s') j = column (X s) j \<longrightarrow>
            column (fst (MarginalCDFMap_gen_features s')) j
              = column (fst (MarginalCDFMap_gen_features s)) j)
       \<and> fst (MarginalCDFMap_gen_features \<lparr>np_random_state = g, self = (), X = column_112\<rparr>)
            = \<lparr>shape = (3, 1), rows = [[1 / 2], [1 / 2], [1]]\<rparr>"
proof -
  have len: "length (column (X s) j) = n"
    using assms(1,2) by (simp add: wf_ndarray_def length_column)
  have col: "column (fst (MarginalCDFMap_gen_features s)) j
           = map (\<lambda>r. r / real n) (rankdata (column (X s) j))"
    using assms by (rule MarginalCDFMap_gen_features_column)
  have A: "column (fst (MarginalCDFMap_gen_features s)) j
           = map (\<lambda>x. mean (ranks_occupied (column (X s) j) x) / real n) (column (X s) j)"
    unfolding col by (simp add: rankdata_def)
  have B: "\<forall>i<n. column (fst (MarginalCDFMap_gen_features s)) j ! i
             = (real (length (filter (\<lambda>y. y < column (X s) j ! i) (column (X s) j)))
                + (real (length (filter (\<lambda>y. y = column (X s) j ! i) (column (X s) j))) + 1) / 2)
               / real n"
    unfolding col using len by (simp add: length_rankdata rankdata_nth)
  have C: "wf_ndarray (X s') \<and> shape (X s') = (n, d) \<and> column (X s') j = column (X s) j \<longrightarrow>
            column (fst (MarginalCDFMap_gen_features s')) j
              = column (fst (MarginalCDFMap_gen_features s)) j"
  proof (intro impI, elim conjE)
    assume "wf_ndarray (X s')" and "shape (X s') = (n, d)"
      and same: "column (X s') j = column (X s) j"
    then have "column (fst (MarginalCDFMap_gen_features s')) j
           = map (\<lambda>r. r / real n) (rankdata (column (X s') j))"
      using assms(3) by (intro MarginalCDFMap_gen_features_column)
    then show "column (fst (MarginalCDFMap_gen_features s')) j
              = column (fst (MarginalCDFMap_gen_features s)) j"
      unfolding col same .
  qed
  show ?thesis
    by (rule conjI [OF A conjI [OF B conjI [OF C MarginalCDFMap_column_112]]])
qed

theorem MarginalCDFMap_gen_features_average_rank_witness:
  "wf_ndarray (X \<lparr>np_random_state = (), self = (), X = column_112\<rparr>)
   \<and> shape (X \<lparr>np_random_state = (), self = (), X = column_112\<rparr>) = (3, 1)
   \<and> (0::nat) < 1
   \<and> column (fst (MarginalCDFMap_gen_features \<lparr>np_random_state = (), self = (), X = column_112\<rparr>)) 0
       = [1 / 2, 1 / 2, 1]"
proof -
  have h1: "wf_ndarray (X \<lparr>np_random_state = (), self = (), X = column_112\<rparr>)"
    by (simp add: wf_ndarray_def column_112_def)
  have h2: "shape (X \<lparr>np_random_state = (), self = (), X = column_112\<rparr>) = (3, 1)"
    by (simp add: column_112_def)
  have h3: "(0::nat) < 1"
    by simp
  have "column (fst (MarginalCDFMap_gen_features \<lparr>np_random_state = (), self = (), X = column_112\<rparr>)) 0
      = map (\<lambda>x. mean (ranks_occupied
                         (column (X \<lparr>np_random_state = (), self = (), X = column_112\<rparr>) 0) x) / real 3)
          (column (X \<lparr>np_random_state = (), self = (), X = column_112\<rparr>) 0)"
    using MarginalCDFMap_gen_features_average_rank [OF h1 h2 h3] by (rule conjunct1)
  also have "\<dots> = [1 / 2, 1 / 2, 1]"
    by (simp add: column_112_def column_def ranks_occupied_def mean_def eval_nat_numeral)
  finally show ?thesis
    by (intro conjI h1 h2 h3)
qed

text \<open>
  Claim C6, as the specification states it: every entry of the result lies in \<open>(0, 1]\<close> and
  the largest entry of every column is \<open>1\<close>. The second part fails where the largest value
  of a column occurs more than once: for the column \<open>[1, 1]\<close> both entries of the result are
  \<open>0.75\<close>.
\<close>

theorem MarginalCDFMap_column_max_counterexample:
  "wf_ndarray column_11 \<and> shape column_11 = (2, 1)
   \<and> Max (set (column (fst (MarginalCDFMap_gen_features
                              \<lparr>np_random_state = (), self = (), X = column_11\<rparr>)) 0)) \<noteq> 1"
proof -
  have "fst (MarginalCDFMap_gen_features \<lparr>np_random_state = (), self = (), X = column_11\<rparr>)
      = \<lparr>shape = (2, 1), rows = [[3 / 4], [3 / 4]]\<rparr>"
    by (rule MarginalCDFMap_column_11)
  then have "Max (set (column (fst (MarginalCDFMap_gen_features
                              \<lparr>np_random_state = (), self = (), X = column_11\<rparr>)) 0)) \<noteq> 1"
    by (simp add: column_def)
  moreover have "wf_ndarray column_11" and "shape column_11 = (2, 1)"
    by (simp_all add: wf_ndarray_def column_11_def)
  ultimately show ?thesis
    by (intro conjI)
qed

text \<open>
  Claim C6, amended. For an \<open>n \<times> d\<close> array with \<open>n \<ge> 1\<close>, every entry of the result lies
  in \<open>(0, 1]\<close>, and the largest entry of column \<open>j\<close> is \<open>1 - (k - 1) / (2 n)\<close>, where \<open>k\<close> is
  the number of times the largest value of column \<open>j\<close> of the input occurs there; it is \<open>1\<close>
  exactly when that value occurs once.
\<close>

theorem MarginalCDFMap_gen_features_range:
  fixes s :: "('g, unit) pystate"
  assumes "wf_ndarray (X s)" and "shape (X s) = (n, d)" and "0 < n"
  shows "(\<forall>r\<in>set (rows (fst (MarginalCDFMap_gen_features s))). \<forall>z\<in>set r. 0 < z \<and> z \<le> 1)
       \<and> (\<forall>j<d. Max (set (column (fst (MarginalCDFMap_gen_features s)) j))
               = 1 - (real (length (filter (\<lambda>y. y = Max (set (column (X s) j))) (column (X s) j))) - 1)
                       / (2 * real n))
       \<and> (\<forall>j<d. Max (set (column (fst (MarginalCDFMap_gen_features s)) j)) = 1
               \<longleftrightarrow> length (filter (\<lambda>y. y = Max (set (column (X s) j))) (column (X s) j)) = 1)"
proof -
  have len: "length (column (X s) j) = n" for j
    using assms(1,2) by (simp add: wf_ndarray_def length_column)
  have entries: "\<forall>r\<in>set (rows (fst (MarginalCDFMap_gen_features s))). \<forall>z\<in>set r. 0 < z \<and> z \<le> 1"
  proof (intro ballI)
    fix r z
    assume "r \<in> set (rows (fst (MarginalCDFMap_gen_features s)))" and "z \<in> set r"
    then obtain i j where ij: "i < n" "j < d" and z: "z = rankdata (column (X s) j) ! i / real n"
      by (auto simp: MarginalCDFMap_gen_features_rows [OF assms(1,2)])
    have "1 \<le> rankdata (column (X s) j) ! i" and "rankdata (column (X s) j) ! i \<le> real n"
      using rankdata_bounds [of i "column (X s) j"] ij(1) len by simp_all
    then show "0 < z \<and> z \<le> 1"
      unfolding z using assms(3) by simp
  qed
  have top: "Max (set (column (fst (MarginalCDFMap_gen_features s)) j))
               = 1 - (real (length (filter (\<lambda>y. y = Max (set (column (X s) j))) (column (X s) j))) - 1)
                       / (2 * real n)" if "j < d" for j
  proof -
    have "column (X s) j \<noteq> []"
      using len [of j] assms(3) by auto
    then have "Max (set (map (\<lambda>r. r / real n) (rankdata (column (X s) j))))
       = (real (length (column (X s) j))
            - (real (length (filter (\<lambda>y. y = Max (set (column (X s) j))) (column (X s) j))) - 1) / 2)
         / real n"
      using assms(3) by (intro Max_scaled_rankdata) simp_all
    then show ?thesis
      using assms(3) len [of j]
      by (simp add: MarginalCDFMap_gen_features_column [OF assms(1,2) that] field_simps)
  qed
  have one: "Max (set (column (fst (MarginalCDFMap_gen_features s)) j)) = 1
               \<longleftrightarrow> length (filter (\<lambda>y. y = Max (set (column (X s) j))) (column (X s) j)) = 1"
    if "j < d" for j
    using assms(3) by (simp add: top [OF that])
  show ?thesis
    using top one by (intro conjI allI impI entries)
qed

theorem MarginalCDFMap_gen_features_range_witness:
  "wf_ndarray (X \<lparr>np_random_state = (), self = (), X = column_11\<rparr>)
   \<and> shape (X \<lparr>np_random_state = (), self = (), X = column_11\<rparr>) = (2, 1)
   \<and> (0::nat) < 2
   \<and> Max (set (column (fst (MarginalCDFMap_gen_features
                              \<lparr>np_random_state = (), self = (), X = column_11\<rparr>)) 0)) = 3 / 4"
proof -
  have h1: "wf_ndarray (X \<lparr>np_random_state = (), self = (), X = column_11\<rparr>)"
    by (simp add: wf_ndarray_def column_11_def)
  have h2: "shape (X \<lparr>np_random_state = (), self = (), X = column_11\<rparr>) = (2, 1)"
    by (simp add: column_11_def)
  have h3: "(0::nat) < 2"
    by simp
  have "\<forall>j<1. Max (set (column (fst (MarginalCDFMap_gen_features
                              \<lparr>np_random_state = (), self = (), X = column_11\<rparr>)) j))
      = 1 - (real (length (filter
                 (\<lambda>y. y = Max (set (column (X \<lparr>np_random_state = (), self = (), X = column_11\<rparr>) j)))
                 (column (X \<lparr>np_random_state = (), self = (), X = column_11\<rparr>) j))) - 1)
              / (2 * real 2)"
    using MarginalCDFMap_gen_features_range [OF h1 h2 h3] by (elim conjE)
  then have "Max (set (column (fst (MarginalCDFMap_gen_features
                              \<lparr>np_random_state = (), self = (), X = column_11\<rparr>)) 0))
      = 1 - (real (length (filter
                 (\<lambda>y. y = Max (set (column (X \<lparr>np_random_state = (), self = (), X = column_11\<rparr>) 0)))
                 (column (X \<lparr>np_random_state = (), self = (), X = column_11\<rparr>) 0))) - 1)
              / (2 * real 2)"
    by simp
  also have "\<dots> = 3 / 4"
    by (simp add: column_11_def column_def)
  finally show ?thesis
    by (intro conjI h1 h2 h3)
qed

subsection \<open>The draws of \<open>randn\<close>\<close>

lemma fst_draw_normals: "fst (draw_normals np k g) = map (nth_normal np g) [0..<k]"
proof (induction k arbitrary: g)
  case 0
  then show ?case by simp
next
  case (Suc k)
  have "fst (draw_normals np (Suc k) g)
      = fst (standard_normal np g) # fst (draw_normals np k (snd (standard_normal np g)))"
    by (simp add: split_beta)
  also have "\<dots> = nth_normal np g 0 # map (\<lambda>i. nth_normal np g (Suc i)) [0..<k]"
    by (simp add: Suc.IH)
  also have "\<dots> = map (nth_normal np g) [0..<Suc k]"
    by (simp only: map_upt_Suc)
  finally show ?case .
qed

lemma index_in_block: "i < K \<Longrightarrow> j < d \<Longrightarrow> i * d + j < K * (d::nat)"
proof -
  assume "i < K" and "j < d"
  then have "i * d + j < Suc i * d" by simp
  also have "\<dots> \<le> K * d"
    using \<open>i < K\<close> by (intro mult_le_mono1) simp
  finally show ?thesis .
qed

lemma block_of_map:
  assumes "i < K"
  shows "take d (drop (i * d) (map f [0..<K * d])) = map (\<lambda>j. f (i * d + j)) [0..<d]"
proof (rule nth_equalityI)
  have "Suc i * d \<le> K * d"
    using assms by (intro mult_le_mono1) simp
  then show "length (take d (drop (i * d) (map f [0..<K * d]))) = length (map (\<lambda>j. f (i * d + j)) [0..<d])"
    by simp
next
  fix j
  assume "j < length (take d (drop (i * d) (map f [0..<K * d])))"
  then have j: "j < d" by simp
  have "i * d \<le> K * d"
    using assms by (intro mult_le_mono1) simp
  then have "drop (i * d) (map f [0..<K * d]) ! j = map f [0..<K * d] ! (i * d + j)"
    by (intro nth_drop) simp
  then show "take d (drop (i * d) (map f [0..<K * d])) ! j = map (\<lambda>j. f (i * d + j)) [0..<d] ! j"
    using index_in_block [OF assms j] j by simp
qed

lemma fst_randn:
  assumes "0 \<le> k"
  shows "fst (randn np k d s)
       = Inr \<lparr>shape = (nat k, d),
              rows = map (\<lambda>i. map (\<lambda>j. nth_normal np (np_random_state s) (i * d + j)) [0..<d])
                       [0..<nat k]\<rparr>"
proof -
  have "map (\<lambda>i. take d (drop (i * d) (fst (draw_normals np (nat k * d) (np_random_state s))))) [0..<nat k]
      = map (\<lambda>i. map (\<lambda>j. nth_normal np (np_random_state s) (i * d + j)) [0..<d]) [0..<nat k]"
    by (simp add: fst_draw_normals block_of_map)
  then show ?thesis
    using assms by (simp add: randn_def split_beta)
qed

subsection \<open>The projection\<close>

lemma wf_ndarray_row:
  "wf_ndarray A \<Longrightarrow> shape A = (n, d) \<Longrightarrow> i < n \<Longrightarrow> length (rows A ! i) = d"
  by (simp add: wf_ndarray_def list_all_length)

lemma wf_ndarray_length: "wf_ndarray A \<Longrightarrow> shape A = (n, d) \<Longrightarrow> length (rows A) = n"
  by (simp add: wf_ndarray_def)

lemma column_transpose_nd:
  assumes "k < K"
  shows "column (transpose_nd \<lparr>shape = (K, d), rows = map (\<lambda>k. map (w k) [0..<d]) [0..<K]\<rparr>) k
       = map (w k) [0..<d]"
  using assms by (intro nth_equalityI) (simp_all add: column_def transpose_nd_def)

lemma map2_times_upt:
  fixes a :: "real list"
  assumes "length a = d"
  shows "map2 (*) a (map f [0..<d]) = map (\<lambda>j. a ! j * f j) [0..<d]"
  using assms by (intro nth_equalityI) simp_all

lemma dot_transpose_nd:
  assumes "wf_ndarray A" and "shape A = (n, d)"
  shows "dot A (transpose_nd \<lparr>shape = (K, d), rows = map (\<lambda>k. map (w k) [0..<d]) [0..<K]\<rparr>)
       = Inr \<lparr>shape = (n, K),
              rows = map (\<lambda>i. map (\<lambda>k. (\<Sum>j\<leftarrow>[0..<d]. rows A ! i ! j * w k j)) [0..<K]) [0..<n]\<rparr>"
proof -
  let ?T = "transpose_nd \<lparr>shape = (K, d), rows = map (\<lambda>k. map (w k) [0..<d]) [0..<K]\<rparr>"
  have shT: "shape ?T = (d, K)"
    by (simp add: transpose_nd_def)
  have len: "length (rows A) = n"
    using assms by (rule wf_ndarray_length)
  have "map (\<lambda>a. map (\<lambda>k. sum_list (map2 (*) a (column ?T k))) [0..<K]) (rows A)
      = map (\<lambda>i. map (\<lambda>k. (\<Sum>j\<leftarrow>[0..<d]. rows A ! i ! j * w k j)) [0..<K]) [0..<n]"
  proof (rule nth_equalityI)
    show "length (map (\<lambda>a. map (\<lambda>k. sum_list (map2 (*) a (column ?T k))) [0..<K]) (rows A))
        = length (map (\<lambda>i. map (\<lambda>k. (\<Sum>j\<leftarrow>[0..<d]. rows A ! i ! j * w k j)) [0..<K]) [0..<n])"
      by (simp add: len)
  next
    fix i
    assume "i < length (map (\<lambda>a. map (\<lambda>k. sum_list (map2 (*) a (column ?T k))) [0..<K]) (rows A))"
    then have i: "i < n" by (simp add: len)
    have row: "length (rows A ! i) = d"
      using assms i by (rule wf_ndarray_row)
    have "map (\<lambda>k. sum_list (map2 (*) (rows A ! i) (column ?T k))) [0..<K]
        = map (\<lambda>k. (\<Sum>j\<leftarrow>[0..<d]. rows A ! i ! j * w k j)) [0..<K]"
      by (rule map_cong [OF refl]) (simp add: column_transpose_nd map2_times_upt [OF row])
    then show "map (\<lambda>a. map (\<lambda>k. sum_list (map2 (*) a (column ?T k))) [0..<K]) (rows A) ! i
        = map (\<lambda>i. map (\<lambda>k. (\<Sum>j\<leftarrow>[0..<d]. rows A ! i ! j * w k j)) [0..<K]) [0..<n] ! i"
      using i by (simp add: len)
  qed
  then show ?thesis
    using assms(2) shT by (simp add: dot_def)
qed

subsection \<open>\<open>RFFKGauss.gen_features\<close> step by step\<close>

lemma randn_frame:
  "self (snd (randn np k d s)) = self s" "X (snd (randn np k d s)) = X s"
  by (simp_all add: randn_def split: prod.splits)

lemma RFFKGauss_gen_features_fst:
  "fst (RFFKGauss_gen_features np s)
     = bind_err (fst (randn np (n_features (self s) div 2) (snd (shape (X s)))
                        (s\<lparr>np_random_state := seed_state np (seed (self s))\<rparr>)))
         (\<lambda>R. bind_err (dot (X s) (transpose_nd (map_nd (\<lambda>w. w / sqrt (sigma2 (self s))) R)))
         (\<lambda>XWT. bind_err (hstack (map_nd cos XWT) (map_nd sin XWT))
         (\<lambda>H. if n_features (self s) = 0 then Inl ZeroDivisionError
              else Inr (map_nd (\<lambda>z. z * sqrt (2 / real_of_int (n_features (self s)))) H))))"
  by (simp add: RFFKGauss_gen_features_def NumpySeedContext_enter_def NumpySeedContext_exit_def
      Let_def split_beta randn_frame cong: if_cong)

lemma half_twice: "0 < nf \<Longrightarrow> even nf \<Longrightarrow> nat (nf div 2) + nat (nf div 2) = nat nf" for nf :: int
  by (elim evenE) simp

lemma RFFKGauss_gen_features_spec_rff:
  assumes "0 < n_features (self s)" and "even (n_features (self s))" and "wf_ndarray (X s)"
  shows "fst (RFFKGauss_gen_features np s) = Inr (spec_rff np (self s) (X s))"
proof -
  obtain n d where sh: "shape (X s) = (n, d)"
    by (cases "shape (X s)")
  let ?K = "nat (n_features (self s) div 2)"
  let ?g = "seed_state np (seed (self s))"
  let ?c = "sqrt (sigma2 (self s))"
  let ?c2 = "sqrt (2 / real_of_int (n_features (self s)))"
  let ?w = "\<lambda>k j. nth_normal np ?g (k * d + j) / ?c"
  let ?P = "\<lambda>i k. (\<Sum>j\<leftarrow>[0..<d]. rows (X s) ! i ! j * ?w k j)"
  have nonneg: "0 \<le> n_features (self s) div 2"
    using assms(1) by simp
  have R: "fst (randn np (n_features (self s) div 2) (snd (shape (X s)))
                  (s\<lparr>np_random_state := ?g\<rparr>))
         = Inr \<lparr>shape = (?K, d),
                rows = map (\<lambda>k. map (\<lambda>j. nth_normal np ?g (k * d + j)) [0..<d]) [0..<?K]\<rparr>"
    using fst_randn [OF nonneg, of np d "s\<lparr>np_random_state := ?g\<rparr>"] sh by simp
  have W: "map_nd (\<lambda>w. w / ?c)
             \<lparr>shape = (?K, d),
              rows = map (\<lambda>k. map (\<lambda>j. nth_normal np ?g (k * d + j)) [0..<d]) [0..<?K]\<rparr>
         = \<lparr>shape = (?K, d), rows = map (\<lambda>k. map (?w k) [0..<d]) [0..<?K]\<rparr>"
    by (simp add: map_nd_def o_def)
  have D: "dot (X s) (transpose_nd \<lparr>shape = (?K, d), rows = map (\<lambda>k. map (?w k) [0..<d]) [0..<?K]\<rparr>)
         = Inr \<lparr>shape = (n, ?K), rows = map (\<lambda>i. map (?P i) [0..<?K]) [0..<n]\<rparr>"
    using assms(3) sh by (rule dot_transpose_nd)
  have H: "hstack (map_nd cos \<lparr>shape = (n, ?K), rows = map (\<lambda>i. map (?P i) [0..<?K]) [0..<n]\<rparr>)
                  (map_nd sin \<lparr>shape = (n, ?K), rows = map (\<lambda>i. map (?P i) [0..<?K]) [0..<n]\<rparr>)
         = Inr \<lparr>shape = (n, ?K + ?K),
                rows = map (\<lambda>i. map (\<lambda>k. cos (?P i k)) [0..<?K] @ map (\<lambda>k. sin (?P i k)) [0..<?K])
                         [0..<n]\<rparr>"
    by (simp add: hstack_def map_nd_def o_def map2_map_map)
  have S: "map_nd (\<lambda>z. z * ?c2)
             \<lparr>shape = (n, ?K + ?K),
              rows = map (\<lambda>i. map (\<lambda>k. cos (?P i k)) [0..<?K] @ map (\<lambda>k. sin (?P i k)) [0..<?K])
                       [0..<n]\<rparr>
         = \<lparr>shape = (n, nat (n_features (self s))),
            rows = map (\<lambda>i. map (\<lambda>k. ?c2 * cos (?P i k)) [0..<?K] @ map (\<lambda>k. ?c2 * sin (?P i k)) [0..<?K])
                     [0..<n]\<rparr>"
    using half_twice [OF assms(1,2)] by (simp add: map_nd_def o_def mult.commute)
  have spec: "spec_rff np (self s) (X s)
         = \<lparr>shape = (n, nat (n_features (self s))),
            rows = map (\<lambda>i. map (\<lambda>k. ?c2 * cos (?P i k)) [0..<?K] @ map (\<lambda>k. ?c2 * sin (?P i k)) [0..<?K])
                     [0..<n]\<rparr>"
    using sh by (simp add: spec_rff_def spec_P_def spec_W_def Let_def)
  have "n_features (self s) \<noteq> 0"
    using assms(1) by simp
  then show ?thesis
    unfolding RFFKGauss_gen_features_fst R spec
    by (simp only: bind_err_def sum.case W D H S if_False)
qed

lemma RFFKGauss_init_Inr:
  assumes "RFFKGauss_init s2 nf sd = Inr m"
  shows "sigma2 m = s2" and "n_features m = nf" and "seed m = sd"
    and "0 < s2" and "0 < nf" and "even nf"
  using assms by (auto simp: RFFKGauss_init_def split: if_splits)

lemma shape_spec_rff: "shape (spec_rff np m A) = (fst (shape A), nat (n_features m))"
  by (simp add: spec_rff_def Let_def)

lemma wf_spec_rff:
  assumes "0 < n_features m" and "even (n_features m)"
  shows "wf_ndarray (spec_rff np m A)"
  using half_twice [OF assms]
  by (simp add: wf_ndarray_def spec_rff_def Let_def list_all_iff)

lemma wf_MarginalCDFMap_gen_features:
  assumes "wf_ndarray (X s)" and "shape (X s) = (n, d)"
  shows "wf_ndarray (fst (MarginalCDFMap_gen_features s))"
    and "shape (fst (MarginalCDFMap_gen_features s)) = (n, d)"
  by (simp_all add: MarginalCDFMap_gen_features_rows [OF assms] wf_ndarray_def list_all_iff)

text \<open>
  With the counter generator seeded with \<open>1\<close> the draws are \<open>1\<close> and \<open>2\<close>, so for
  \<open>sigma2 = 4\<close> the frequencies are \<open>1/2\<close> and \<open>1\<close>, and the column \<open>[1, 1, 2]\<close> is
  projected to the rows \<open>[1/2, 1]\<close>, \<open>[1/2, 1]\<close> and \<open>[1, 2]\<close>.
\<close>

lemma spec_rff_column_112:
  "spec_rff counter_np rff_4_4 column_112
     = \<lparr>shape = (3, 4),
        rows = [[sqrt (1 / 2) * cos (1 / 2), sqrt (1 / 2) * cos 1,
                 sqrt (1 / 2) * sin (1 / 2), sqrt (1 / 2) * sin 1],
                [sqrt (1 / 2) * cos (1 / 2), sqrt (1 / 2) * cos 1,
                 sqrt (1 / 2) * sin (1 / 2), sqrt (1 / 2) * sin 1],
                [sqrt (1 / 2) * cos 1, sqrt (1 / 2) * cos 2,
                 sqrt (1 / 2) * sin 1, sqrt (1 / 2) * sin 2]]\<rparr>"
  by (simp add: spec_rff_def spec_P_def spec_W_def counter_np_def rff_4_4_def column_112_def
      eval_nat_numeral Let_def)

subsection \<open>The random Fourier features\<close>

text \<open>
  Claim C4. For an instance that the constructor returned and an \<open>n \<times> d\<close> array, the
  result of \<open>RFFKGauss.gen_features\<close> is the array that the specification describes:
  with \<open>W\<close> the \<open>(n_features // 2) \<times> d\<close> matrix of the first draws of the stream seeded
  with \<open>seed\<close>, each scaled by \<open>1 / sqrt(sigma2)\<close>, and \<open>P = X W\<^sup>T\<close>, it is
  \<open>[cos(P) | sin(P)]\<close> scaled by \<open>sqrt(2 / n_features)\<close>, and nothing else.
\<close>

theorem RFFKGauss_gen_features_is_spec_rff:
  assumes "RFFKGauss_init s2 nf sd = Inr (self s)" and "wf_ndarray (X s)"
  shows "fst (RFFKGauss_gen_features np s) = Inr (spec_rff np (self s) (X s))"
  using RFFKGauss_init_Inr(2,5,6) [OF assms(1)] assms(2)
  by (intro RFFKGauss_gen_features_spec_rff) simp_all

theorem RFFKGauss_gen_features_is_spec_rff_witness:
  "RFFKGauss_init 4 4 1 = Inr (self \<lparr>np_random_state = 7::nat, self = rff_4_4, X = column_112\<rparr>)
   \<and> wf_ndarray (X \<lparr>np_random_state = 7::nat, self = rff_4_4, X = column_112\<rparr>)
   \<and> fst (RFFKGauss_gen_features counter_np
             \<lparr>np_random_state = 7::nat, self = rff_4_4, X = column_112\<rparr>)
       = Inr \<lparr>shape = (3, 4),
              rows = [[sqrt (1 / 2) * cos (1 / 2), sqrt (1 / 2) * cos 1,
                       sqrt (1 / 2) * sin (1 / 2), sqrt (1 / 2) * sin 1],
                      [sqrt (1 / 2) * cos (1 / 2), sqrt (1 / 2) * cos 1,
                       sqrt (1 / 2) * sin (1 / 2), sqrt (1 / 2) * sin 1],
                      [sqrt (1 / 2) * cos 1, sqrt (1 / 2) * cos 2,
                       sqrt (1 / 2) * sin 1, sqrt (1 / 2) * sin 2]]\<rparr>"
proof -
  have h1: "RFFKGauss_init 4 4 1
          = Inr (self \<lparr>np_random_state = 7::nat, self = rff_4_4, X = column_112\<rparr>)"
    by (simp add: RFFKGauss_init_def rff_4_4_def)
  have h2: "wf_ndarray (X \<lparr>np_random_state = 7::nat, self = rff_4_4, X = column_112\<rparr>)"
    by (simp add: wf_ndarray_def column_112_def)
  have "fst (RFFKGauss_gen_features counter_np
               \<lparr>np_random_state = 7::nat, self = rff_4_4, X = column_112\<rparr>)
      = Inr (spec_rff counter_np rff_4_4 column_112)"
    using RFFKGauss_gen_features_is_spec_rff [OF h1 h2, of counter_np] by simp
  then have "fst (RFFKGauss_gen_features counter_np
               \<lparr>np_random_state = 7::nat, self = rff_4_4, X = column_112\<rparr>)
      = Inr \<lparr>shape = (3, 4),
              rows = [[sqrt (1 / 2) * cos (1 / 2), sqrt (1 / 2) * cos 1,
                       sqrt (1 / 2) * sin (1 / 2), sqrt (1 / 2) * sin 1],
                      [sqrt (1 / 2) * cos (1 / 2), sqrt (1 / 2) * cos 1,
                       sqrt (1 / 2) * sin (1 / 2), sqrt (1 / 2) * sin 1],
                      [sqrt (1 / 2) * cos 1, sqrt (1 / 2) * cos 2,
                       sqrt (1 / 2) * sin 1, sqrt (1 / 2) * sin 2]]\<rparr>"
    by (simp only: spec_rff_column_112)
  then show ?thesis
    by (intro conjI h1 h2)
qed

subsection \<open>Overflow in the projection\<close>

lemma overflow_threshold64_gt: "2 < overflow_threshold64"
proof -
  have "(2::real) < (2 ^ 54 - 1) * 1" by simp
  also have "\<dots> \<le> (2 ^ 54 - 1) * 2 ^ 970"
    by (intro mult_left_mono) simp_all
  finally show ?thesis by (simp only: overflow_threshold64_def)
qed

lemma fl_Finite: "\<bar>r\<bar> < overflow_threshold64 \<Longrightarrow> fl r = Finite r"
  by (auto simp: fl_def)

lemma fl_small: "\<bar>r\<bar> \<le> 2 \<Longrightarrow> fl r = Finite r"
  using overflow_threshold64_gt by (intro fl_Finite) linarith

lemma RFFKGauss_gen_features64_fst:
  "fst (RFFKGauss_gen_features64 np m A g)
     = bind_err (fst (RFFKGauss_XWT64 np m A (seed_state np (seed m))))
         (\<lambda>XWT. bind_err (hstack64 (map64 f64_cos XWT) (map64 f64_sin XWT))
         (\<lambda>H. if n_features m = 0 then Inl ZeroDivisionError
              else Inr (map64 (\<lambda>z. f64_mult z (f64_sqrt (fl (2 / real_of_int (n_features m))))) H)))"
  by (simp add: RFFKGauss_gen_features64_def NumpySeedContext_enter64_def
      NumpySeedContext_exit64_def Let_def split_beta)

lemma scale64:
  assumes "0 < nf" and "even nf"
  shows "f64_sqrt (fl (2 / real_of_int nf)) = Finite (sqrt (2 / real_of_int nf))"
    and "0 \<le> sqrt (2 / real_of_int nf)" and "sqrt (2 / real_of_int nf) \<le> 1"
proof -
  have "2 \<le> nf"
    using assms by (elim evenE) simp
  then have le: "2 / real_of_int nf \<le> 1" and ge: "0 \<le> 2 / real_of_int nf"
    by simp_all
  then have "fl (2 / real_of_int nf) = Finite (2 / real_of_int nf)"
    by (intro fl_small) simp
  then show "f64_sqrt (fl (2 / real_of_int nf)) = Finite (sqrt (2 / real_of_int nf))"
    using ge by simp
  show "0 \<le> sqrt (2 / real_of_int nf)"
    using ge by simp
  show "sqrt (2 / real_of_int nf) \<le> 1"
    using le by simp
qed

lemma scaled_cos_sin:
  assumes "finite64 p" and "0 \<le> c" and "c \<le> 1"
  shows "abs_le64 c (f64_mult (f64_cos p) (Finite c))"
    and "abs_le64 c (f64_mult (f64_sin p) (Finite c))"
proof -
  obtain a where p: "p = Finite a"
    using assms(1) by (cases p) simp_all
  have bound: "\<bar>u * c\<bar> \<le> c" if "\<bar>u\<bar> \<le> 1" for u
  proof -
    have "\<bar>u * c\<bar> = \<bar>u\<bar> * c"
      using assms(2) by (simp add: abs_mult)
    also have "\<dots> \<le> 1 * c"
      using assms(2) that by (intro mult_right_mono)
    finally show ?thesis by simp
  qed
  have fin: "fl (u * c) = Finite (u * c)" if "\<bar>u\<bar> \<le> 1" for u
    using bound [OF that] assms(3) by (intro fl_small) linarith
  show "abs_le64 c (f64_mult (f64_cos p) (Finite c))"
    unfolding p using fin [of "cos a"] bound [of "cos a"] by simp
  show "abs_le64 c (f64_mult (f64_sin p) (Finite c))"
    unfolding p using fin [of "sin a"] bound [of "sin a"] by simp
qed

lemma RFFKGauss_gen_features64_bounded_if_finite:
  assumes "0 < n_features m" and "even (n_features m)"
    and "entries_finite64 (fst (RFFKGauss_XWT64 np m A (seed_state np (seed m))))"
  shows "entries_bounded64 (sqrt (2 / real_of_int (n_features m)))
           (fst (RFFKGauss_gen_features64 np m A g))"
proof -
  let ?c = "sqrt (2 / real_of_int (n_features m))"
  obtain P where P: "fst (RFFKGauss_XWT64 np m A (seed_state np (seed m))) = Inr P"
    and fin: "list_all (list_all finite64) (rows64 P)"
    using assms(3) by (auto simp: entries_finite64_def split: sum.splits)
  have c: "f64_sqrt (fl (2 / real_of_int (n_features m))) = Finite ?c" "0 \<le> ?c" "?c \<le> 1"
    using scale64 [OF assms(1,2)] by simp_all
  have nz: "n_features m \<noteq> 0"
    using assms(1) by simp
  have res: "fst (RFFKGauss_gen_features64 np m A g)
      = Inr \<lparr>shape64 = (fst (shape64 P), snd (shape64 P) + snd (shape64 P)),
             rows64 = map (\<lambda>r. map (\<lambda>p. f64_mult (f64_cos p) (Finite ?c)) r
                              @ map (\<lambda>p. f64_mult (f64_sin p) (Finite ?c)) r) (rows64 P)\<rparr>"
    unfolding RFFKGauss_gen_features64_fst P
    using nz by (simp add: bind_err_def hstack64_def map64_def c(1) map2_map_map o_def)
  have "list_all (list_all (abs_le64 ?c))
          (map (\<lambda>r. map (\<lambda>p. f64_mult (f64_cos p) (Finite ?c)) r
                   @ map (\<lambda>p. f64_mult (f64_sin p) (Finite ?c)) r) (rows64 P))"
    using fin scaled_cos_sin [OF _ c(2,3)]
    by (auto simp: list_all_iff)
  then show ?thesis
    unfolding res by (simp add: entries_bounded64_def)
qed

lemma sqrt_small_sigma2: "sqrt (1 / 2 ^ 1000) = 1 / 2 ^ 500"
proof -
  have "(2::real) ^ 1000 = (2 ^ 500)\<^sup>2"
    by (simp only: power_mult [symmetric]) simp
  then have "sqrt (2 ^ 1000) = (2::real) ^ 500"
    by (simp only: real_sqrt_abs) simp
  then show ?thesis
    by (simp only: real_sqrt_divide real_sqrt_one)
qed

lemma overflow_threshold64_between:
  "2 ^ 500 < overflow_threshold64" "overflow_threshold64 \<le> 2 ^ 1500"
proof -
  have "(2::real) ^ 500 \<le> 2 ^ 970"
    by (intro power_increasing) simp_all
  also have "\<dots> = 1 * 2 ^ 970" by simp
  also have "\<dots> < (2 ^ 54 - 1) * 2 ^ 970"
    by (intro mult_strict_right_mono) simp_all
  finally show "2 ^ 500 < overflow_threshold64"
    by (simp only: overflow_threshold64_def)
  have "(2 ^ 54 - 1) * (2::real) ^ 970 \<le> 2 ^ 54 * 2 ^ 970"
    by (intro mult_right_mono) simp_all
  also have "\<dots> = 2 ^ 1024"
    by (simp only: power_add [symmetric]) simp
  also have "\<dots> \<le> 2 ^ 1500"
    by (intro power_increasing) simp_all
  finally show "overflow_threshold64 \<le> 2 ^ 1500"
    by (simp only: overflow_threshold64_def)
qed

lemma frequency_small_sigma2:
  "f64_divide (Finite 1) (f64_sqrt (Finite (1 / 2 ^ 1000))) = Finite (2 ^ 500)"
proof -
  have "f64_sqrt (Finite (1 / 2 ^ 1000)) = Finite (1 / 2 ^ 500)"
    by (simp add: sqrt_small_sigma2 del: power_numeral)
  moreover have "f64_divide (Finite 1) (Finite (1 / 2 ^ 500)) = fl (2 ^ 500)"
    by (simp del: power_numeral)
  moreover have "fl (2 ^ 500) = Finite (2 ^ 500)"
    using overflow_threshold64_between(1) by (intro fl_Finite) (simp del: power_numeral)
  ultimately show ?thesis by (simp only:)
qed

lemma product_overflows: "f64_mult (Finite (2 ^ 1000)) (Finite (2 ^ 500)) = PlusInf"
proof -
  have "(2::real) ^ 1000 * 2 ^ 500 = 2 ^ 1500"
    by (simp only: power_add [symmetric]) simp
  then show ?thesis
    using overflow_threshold64_between(2) by (simp add: fl_def del: power_numeral)
qed

lemma RFFKGauss_XWT64_1x1:
  "fst (RFFKGauss_XWT64 counter_np \<lparr>sigma2 = s2, n_features = 2, seed = 1\<rparr>
          \<lparr>shape64 = (1, 1), rows64 = [[x]]\<rparr> (seed_state counter_np 1))
     = Inr \<lparr>shape64 = (1, 1),
            rows64 = [[f64_add (Finite 0)
                         (f64_mult x (f64_divide (Finite 1) (f64_sqrt (Finite s2))))]]\<rparr>"
  by (simp add: RFFKGauss_XWT64_def counter_np_def randn64_def bind_err_def map64_def dot64_def
      transpose64_def column64_def Let_def
      del: f64_add.simps f64_mult.simps f64_divide.simps f64_sqrt.simps)

lemma RFFKGauss_XWT64_overflows:
  "fst (RFFKGauss_XWT64 counter_np rff_small_sigma2 large_1_1 (seed_state counter_np 1))
     = Inr \<lparr>shape64 = (1, 1), rows64 = [[PlusInf]]\<rparr>"
  unfolding rff_small_sigma2_def large_1_1_def RFFKGauss_XWT64_1x1
    frequency_small_sigma2 product_overflows
  by simp

lemma RFFKGauss_gen_features64_overflows:
  "fst (RFFKGauss_gen_features64 counter_np rff_small_sigma2 large_1_1 g)
     = Inr \<lparr>shape64 = (1, 2), rows64 = [[NaN, NaN]]\<rparr>"
proof -
  have "seed rff_small_sigma2 = 1" and "n_features rff_small_sigma2 = 2"
    by (simp_all add: rff_small_sigma2_def)
  then show ?thesis
    unfolding RFFKGauss_gen_features64_fst
    by (simp add: RFFKGauss_XWT64_overflows bind_err_def hstack64_def map64_def)
qed

lemma RFFKGauss_XWT64_column_112:
  "fst (RFFKGauss_XWT64 counter_np rff_4_4 column_112_f64 (seed_state counter_np 1))
     = Inr \<lparr>shape64 = (3, 2),
            rows64 = [[Finite (1 / 2), Finite 1], [Finite (1 / 2), Finite 1],
                      [Finite 1, Finite 2]]\<rparr>"
  by (simp add: RFFKGauss_XWT64_def counter_np_def rff_4_4_def column_112_f64_def randn64_def
      bind_err_def map64_def dot64_def transpose64_def column64_def fl_small
      eval_nat_numeral Let_def)

lemma fl_scaled: "\<bar>u\<bar> \<le> 1 \<Longrightarrow> 0 \<le> c \<Longrightarrow> c \<le> 1 \<Longrightarrow> fl (u * c) = Finite (u * c)"
proof -
  assume u: "\<bar>u\<bar> \<le> 1" and c: "0 \<le> c" "c \<le> 1"
  have "\<bar>u * c\<bar> = \<bar>u\<bar> * c"
    using c(1) by (simp add: abs_mult)
  also have "\<dots> \<le> 1 * 1"
    using u c by (intro mult_mono) simp_all
  finally show ?thesis
    by (intro fl_small) simp
qed

lemma RFFKGauss_gen_features64_column_112:
  "fst (RFFKGauss_gen_features64 counter_np rff_4_4 column_112_f64 g)
     = Inr \<lparr>shape64 = (3, 4),
            rows64 = [[Finite (cos (1 / 2) * sqrt (1 / 2)), Finite (cos 1 * sqrt (1 / 2)),
                       Finite (sin (1 / 2) * sqrt (1 / 2)), Finite (sin 1 * sqrt (1 / 2))],
                      [Finite (cos (1 / 2) * sqrt (1 / 2)), Finite (cos 1 * sqrt (1 / 2)),
                       Finite (sin (1 / 2) * sqrt (1 / 2)), Finite (sin 1 * sqrt (1 / 2))],
                      [Finite (cos 1 * sqrt (1 / 2)), Finite (cos 2 * sqrt (1 / 2)),
                       Finite (sin 1 * sqrt (1 / 2)), Finite (sin 2 * sqrt (1 / 2))]]\<rparr>"
proof -
  have m: "seed rff_4_4 = 1" "n_features rff_4_4 = 4"
    by (simp_all add: rff_4_4_def)
  have c: "f64_sqrt (fl (2 / real_of_int 4)) = Finite (sqrt (1 / 2))"
    by (simp add: fl_small)
  show ?thesis
    unfolding RFFKGauss_gen_features64_fst m RFFKGauss_XWT64_column_112 c
    by (simp add: bind_err_def hstack64_def map64_def fl_scaled)
qed

text \<open>
  Claim C10, as the specification states it: for an instance that the constructor returned
  and an array of finite values, every entry of the result of \<open>RFFKGauss.gen_features\<close>
  is at most \<open>sqrt(2 / n_features)\<close> in absolute value. In float64 the projection
  \<open>X.dot(W.T)\<close> can overflow: for \<open>sigma2 = 1 / 2 ^ 1000\<close>, \<open>n_features = 2\<close> and the \<open>1 \<times> 1\<close>
  array \<open>[[2 ^ 1000]]\<close> the frequency is \<open>2 ^ 500\<close> times the draw, the projection is infinite,
  its cosine and sine are NaN, and NaN is not below any bound.
\<close>

theorem RFFKGauss_gen_features64_overflow_counterexample:
  "RFFKGauss_init (1 / 2 ^ 1000) 2 1 = Inr rff_small_sigma2
   \<and> wf_ndarray64 large_1_1
   \<and> entries_bounded64 max_float64 (Inr large_1_1)
   \<and> fst (RFFKGauss_gen_features64 counter_np rff_small_sigma2 large_1_1 0)
       = Inr \<lparr>shape64 = (1, 2), rows64 = [[NaN, NaN]]\<rparr>
   \<and> \<not> entries_bounded64 (sqrt (2 / real_of_int 2))
          (fst (RFFKGauss_gen_features64 counter_np rff_small_sigma2 large_1_1 0))"
proof -
  have "RFFKGauss_init (1 / 2 ^ 1000) 2 1 = Inr rff_small_sigma2"
    by (simp add: RFFKGauss_init_def rff_small_sigma2_def del: power_numeral)
  moreover have "wf_ndarray64 large_1_1"
    by (simp add: wf_ndarray64_def large_1_1_def)
  moreover have "(2::real) ^ 1000 \<le> max_float64"
  proof -
    have "(2::real) ^ 1000 = 2 ^ 29 * 2 ^ 971"
      by (simp only: power_add [symmetric]) simp
    also have "\<dots> \<le> (2 ^ 53 - 1) * 2 ^ 971"
      by (intro mult_right_mono) simp_all
    finally show ?thesis
      by (simp only: max_float64_def)
  qed
  then have "entries_bounded64 max_float64 (Inr large_1_1)"
    by (simp add: entries_bounded64_def large_1_1_def del: power_numeral)
  moreover have "\<not> entries_bounded64 (sqrt (2 / real_of_int 2))
          (fst (RFFKGauss_gen_features64 counter_np rff_small_sigma2 large_1_1 0))"
    unfolding RFFKGauss_gen_features64_overflows by (simp add: entries_bounded64_def)
  ultimately show ?thesis
    by (intro conjI RFFKGauss_gen_features64_overflows)
qed

text \<open>
  Claim C10, amended. For an instance that the constructor returned and an array for which
  no entry of the float64 projection \<open>X.dot(W.T)\<close> is infinite or NaN, every entry of the
  result of \<open>RFFKGauss.gen_features\<close> is finite and at most \<open>sqrt(2 / n_features)\<close> in
  absolute value.
\<close>

theorem RFFKGauss_gen_features64_bounded:
  assumes "RFFKGauss_init s2 nf sd = Inr m"
    and "entries_finite64 (fst (RFFKGauss_XWT64 np m A (seed_state np (seed m))))"
  shows "entries_bounded64 (sqrt (2 / real_of_int nf)) (fst (RFFKGauss_gen_features64 np m A g))"
proof -
  have "n_features m = nf" and "0 < nf" and "even nf"
    using RFFKGauss_init_Inr [OF assms(1)] by simp_all
  then show ?thesis
    using RFFKGauss_gen_features64_bounded_if_finite [of m np A g] assms(2) by simp
qed

theorem RFFKGauss_gen_features64_bounded_witness:
  "RFFKGauss_init 4 4 1 = Inr rff_4_4
   \<and> entries_finite64
        (fst (RFFKGauss_XWT64 counter_np rff_4_4 column_112_f64 (seed_state counter_np (seed rff_4_4))))
   \<and> fst (RFFKGauss_gen_features64 counter_np rff_4_4 column_112_f64 7)
       = Inr \<lparr>shape64 = (3, 4),
              rows64 = [[Finite (cos (1 / 2) * sqrt (1 / 2)), Finite (cos 1 * sqrt (1 / 2)),
                         Finite (sin (1 / 2) * sqrt (1 / 2)), Finite (sin 1 * sqrt (1 / 2))],
                        [Finite (cos (1 / 2) * sqrt (1 / 2)), Finite (cos 1 * sqrt (1 / 2)),
                         Finite (sin (1 / 2) * sqrt (1 / 2)), Finite (sin 1 * sqrt (1 / 2))],
                        [Finite (cos 1 * sqrt (1 / 2)), Finite (cos 2 * sqrt (1 / 2)),
                         Finite (sin 1 * sqrt (1 / 2)), Finite (sin 2 * sqrt (1 / 2))]]\<rparr>
   \<and> entries_bounded64 (sqrt (2 / real_of_int 4))
        (fst (RFFKGauss_gen_features64 counter_np rff_4_4 column_112_f64 7))"
proof -
  have h1: "RFFKGauss_init 4 4 1 = Inr rff_4_4"
    by (simp add: RFFKGauss_init_def rff_4_4_def)
  have "seed rff_4_4 = 1"
    by (simp add: rff_4_4_def)
  then have h2: "entries_finite64
        (fst (RFFKGauss_XWT64 counter_np rff_4_4 column_112_f64 (seed_state counter_np (seed rff_4_4))))"
    by (simp add: RFFKGauss_XWT64_column_112 entries_finite64_def)
  show ?thesis
    by (intro conjI h1 h2 RFFKGauss_gen_features64_column_112
        RFFKGauss_gen_features64_bounded [OF h1 h2])
qed

subsection \<open>The shape of the result\<close>

text \<open>
  Claim C2. For an \<open>n \<times> d\<close> array, \<open>MarginalCDFMap.gen_features\<close> returns an array with
  \<open>n\<close> rows and as many columns as \<open>num_features\<close> reports, which is \<open>d\<close>; an instance of
  \<open>RFFKGauss\<close> that the constructor returned does not raise and returns an array with \<open>n\<close>
  rows and as many columns as its \<open>num_features\<close> reports, which is \<open>n_features\<close>.
\<close>

theorem gen_features_shape:
  fixes c :: "('h, unit) pystate" and s :: "('g, RFFKGauss) pystate"
  shows "(wf_ndarray (X c) \<and> shape (X c) = (n, d) \<longrightarrow>
            wf_ndarray (fst (MarginalCDFMap_gen_features c))
            \<and> shape (fst (MarginalCDFMap_gen_features c)) = (n, MarginalCDFMap_num_features (X c))
            \<and> MarginalCDFMap_num_features (X c) = d)
       \<and> (RFFKGauss_init s2 nf sd = Inr (self s) \<and> wf_ndarray (X s) \<and> shape (X s) = (n', d') \<longrightarrow>
            (\<exists>Z. fst (RFFKGauss_gen_features np s) = Inr Z \<and> wf_ndarray Z
                \<and> shape Z = (n', nat (RFFKGauss_num_features (self s) (Some (X s))))
                \<and> RFFKGauss_num_features (self s) (Some (X s)) = nf))"
proof (rule conjI; rule impI; elim conjE)
  assume "wf_ndarray (X c)" and "shape (X c) = (n, d)"
  then show "wf_ndarray (fst (MarginalCDFMap_gen_features c))
            \<and> shape (fst (MarginalCDFMap_gen_features c)) = (n, MarginalCDFMap_num_features (X c))
            \<and> MarginalCDFMap_num_features (X c) = d"
    using wf_MarginalCDFMap_gen_features [of c n d] by (simp add: MarginalCDFMap_num_features_def)
next
  assume init: "RFFKGauss_init s2 nf sd = Inr (self s)" and wf: "wf_ndarray (X s)"
    and sh: "shape (X s) = (n', d')"
  have nf: "n_features (self s) = nf" "0 < nf" "even nf"
    using RFFKGauss_init_Inr [OF init] by simp_all
  then have "fst (RFFKGauss_gen_features np s) = Inr (spec_rff np (self s) (X s))"
    using wf by (intro RFFKGauss_gen_features_spec_rff) simp_all
  moreover have "wf_ndarray (spec_rff np (self s) (X s))"
    using nf by (intro wf_spec_rff) simp_all
  moreover have "shape (spec_rff np (self s) (X s))
               = (n', nat (RFFKGauss_num_features (self s) (Some (X s))))"
    using sh by (simp add: shape_spec_rff RFFKGauss_num_features_def)
  moreover have "RFFKGauss_num_features (self s) (Some (X s)) = nf"
    using nf by (simp add: RFFKGauss_num_features_def)
  ultimately show "\<exists>Z. fst (RFFKGauss_gen_features np s) = Inr Z \<and> wf_ndarray Z
                \<and> shape Z = (n', nat (RFFKGauss_num_features (self s) (Some (X s))))
                \<and> RFFKGauss_num_features (self s) (Some (X s)) = nf"
    by (intro exI conjI)
qed

theorem gen_features_shape_witness:
  "wf_ndarray (X \<lparr>np_random_state = (), self = (), X = column_112\<rparr>)
   \<and> shape (X \<lparr>np_random_state = (), self = (), X = column_112\<rparr>) = (3, 1)
   \<and> shape (fst (MarginalCDFMap_gen_features \<lparr>np_random_state = (), self = (), X = column_112\<rparr>)) = (3, 1)
   \<and> RFFKGauss_init 1 4 1 = Inr (self \<lparr>np_random_state = 0::nat, self = rff_1_4, X = column_112\<rparr>)
   \<and> wf_ndarray (X \<lparr>np_random_state = 0::nat, self = rff_1_4, X = column_112\<rparr>)
   \<and> shape (X \<lparr>np_random_state = 0::nat, self = rff_1_4, X = column_112\<rparr>) = (3, 1)
   \<and> map_sum id shape (fst (RFFKGauss_gen_features counter_np
                              \<lparr>np_random_state = 0::nat, self = rff_1_4, X = column_112\<rparr>)) = Inr (3, 4)"
proof -
  have m1: "wf_ndarray (X \<lparr>np_random_state = (), self = (), X = column_112\<rparr>)"
    and r2: "wf_ndarray (X \<lparr>np_random_state = 0::nat, self = rff_1_4, X = column_112\<rparr>)"
    by (simp_all add: wf_ndarray_def column_112_def)
  have m2: "shape (X \<lparr>np_random_state = (), self = (), X = column_112\<rparr>) = (3, 1)"
    and r3: "shape (X \<lparr>np_random_state = 0::nat, self = rff_1_4, X = column_112\<rparr>) = (3, 1)"
    by (simp_all add: column_112_def)
  have r1: "RFFKGauss_init 1 4 1 = Inr (self \<lparr>np_random_state = 0::nat, self = rff_1_4, X = column_112\<rparr>)"
    by (simp add: RFFKGauss_init_def rff_1_4_def)
  note both = gen_features_shape
    [of "\<lparr>np_random_state = (), self = (), X = column_112\<rparr>" 3 1 1 4 1
        "\<lparr>np_random_state = 0::nat, self = rff_1_4, X = column_112\<rparr>" 3 1 counter_np]
  have "shape (fst (MarginalCDFMap_gen_features \<lparr>np_random_state = (), self = (), X = column_112\<rparr>)) = (3, 1)"
    using both m1 m2 by (simp add: MarginalCDFMap_num_features_def)
  moreover have "map_sum id shape (fst (RFFKGauss_gen_features counter_np
                              \<lparr>np_random_state = 0::nat, self = rff_1_4, X = column_112\<rparr>)) = Inr (3, 4)"
    using both r1 r2 r3 by (auto simp: RFFKGauss_num_features_def rff_1_4_def)
  ultimately show ?thesis
    by (intro conjI m1 m2 r1 r2 r3)
qed

end
